theory Spec2Isabelle
  imports Complex_Main "HOL-Library.AList"
begin

section \<open>Connection pool of httpcore: data model\<close>

text \<open>
  The development embeds \<^verbatim>\<open>httpcore/_sync/connection_pool.py\<close> and
  \<^verbatim>\<open>httpcore/_sync/http_proxy.py\<close>.

  \<^item> Byte strings are lists of 8-bit characters.
  \<^item> A connection object is addressed by a handle (its identity); the objects live in a
    store \<open>heap\<close>. Python compares and hashes \<^verbatim>\<open>SyncHTTPConnection\<close> objects by
    identity, so a set of connections is a set of handles.
  \<^item> A Python \<^verbatim>\<open>set\<close> is a list whose order is the order in which the set is
    iterated. Python leaves that order open: the buckets of the pool are arbitrary lists,
    and the loops over the union of the buckets are shown not to depend on the order
    (\<open>close_any_order\<close>, \<open>sweep_any_order\<close>). Adding is \<open>List.insert\<close>, removing
    is \<open>removeAll\<close>.
  \<^item> The dict \<^verbatim>\<open>_connections\<close> is an association list in insertion order, read
    with \<open>map_of\<close>, written with \<open>AList.update\<close>, deleted from with \<open>AList.delete\<close>.
  \<^item> Monotonic time and the expiry are real numbers; only the comparisons and the one
    addition that the code performs on them are used.
  \<^item> The two locks protect against other threads; the model is sequential and they do
    not appear.
  \<^item> Calls made on collaborators (semaphore, connection) are recorded, in order, in
    \<open>trace\<close>.
\<close>

type_synonym bytes = string
type_synonym Origin = "bytes \<times> bytes \<times> int"
type_synonym URL = "bytes \<times> bytes \<times> int option \<times> bytes"
type_synonym Headers = "(bytes \<times> bytes) list"
type_synonym handle = nat

text \<open>
  Modelled from the spec: the states of a connection handle, declared in
  \<^verbatim>\<open>base.py\<close> (absent): PENDING, ACTIVE, READY, IDLE, CLOSED.
\<close>

datatype ConnectionState = PENDING | READY | ACTIVE | IDLE | CLOSED

text \<open>
  Modelled from the spec: the contract of a connection handle (\<^verbatim>\<open>connection.py\<close>
  is absent): its origin, state, protocol kind, expiry, the answer of
  \<^verbatim>\<open>is_socket_readable()\<close>, and its socket.
\<close>

record SyncHTTPConnection =
  origin :: Origin
  state :: ConnectionState
  is_http11 :: bool
  is_http2 :: bool
  expires_at :: "real option"
  is_socket_readable :: bool
  socket :: "nat option"

text \<open>
  Modelled from the spec: the backend's semaphore (\<^verbatim>\<open>_backends/sync.py\<close> is
  absent) is a counting semaphore; \<open>BackendSemaphore n\<close> has \<open>n\<close> free slots.
  \<open>NullSemaphore\<close> is the class of that name in \<^verbatim>\<open>connection_pool.py\<close>.
\<close>

datatype SyncSemaphore = NullSemaphore | BackendSemaphore nat

datatype event =
    SemAcquire
  | SemRelease
  | MarkAsReady handle
  | ConnClose handle
  | ConnRequest handle
  | StartTLS handle

record SyncConnectionPool =
  max_connections :: "nat option"
  max_keepalive_connections :: "int option"
  keepalive_expiry :: "real option"
  http2 :: bool
  connections :: "(Origin \<times> handle list) list"
  internal_semaphore :: "SyncSemaphore option"
  next_keepalive_check :: real
  heap :: "handle \<Rightarrow> SyncHTTPConnection"
  fresh :: handle
  trace :: "event list"

section \<open>Semaphore\<close>

text \<open>\<^verbatim>\<open>SyncSemaphore.release\<close>; the null semaphore returns at once.\<close>

fun release :: "SyncSemaphore \<Rightarrow> SyncSemaphore" where
  "release NullSemaphore = NullSemaphore"
| "release (BackendSemaphore n) = BackendSemaphore (Suc n)"

text \<open>
  The property \<^verbatim>\<open>_connection_semaphore\<close>: the semaphore is created on first use,
  bounded by \<open>max_connections\<close> when that is set.
\<close>

definition connection_semaphore ::
  "'a SyncConnectionPool_scheme \<Rightarrow> SyncSemaphore \<times> 'a SyncConnectionPool_scheme" where
  "connection_semaphore p =
     (case internal_semaphore p of
        Some s \<Rightarrow> (s, p)
      | None \<Rightarrow>
          (let s = (case max_connections p of
                      Some n \<Rightarrow> BackendSemaphore n
                    | None \<Rightarrow> NullSemaphore)
           in (s, p\<lparr>internal_semaphore := Some s\<rparr>)))"

text \<open>\<^verbatim>\<open>self._connection_semaphore.release()\<close>\<close>

definition semaphore_release ::
  "'a SyncConnectionPool_scheme \<Rightarrow> 'a SyncConnectionPool_scheme" where
  "semaphore_release p =
     (let (s, p1) = connection_semaphore p
      in p1\<lparr>internal_semaphore := Some (release s), trace := trace p1 @ [SemRelease]\<rparr>)"

section \<open>Pool bookkeeping\<close>

text \<open>\<^verbatim>\<open>self._connections.get(origin, set())\<close>\<close>

definition bucket :: "'a SyncConnectionPool_scheme \<Rightarrow> Origin \<Rightarrow> handle list" where
  "bucket p og = (case map_of (connections p) og of None \<Rightarrow> [] | Some b \<Rightarrow> b)"

definition remove_from_pool ::
  "'a SyncConnectionPool_scheme \<Rightarrow> handle \<Rightarrow> 'a SyncConnectionPool_scheme" where
  "remove_from_pool p connection =
     (let og = origin (heap p connection) in
      if connection \<in> set (bucket p og) then
        let p1 = semaphore_release p;
            b = removeAll connection (bucket p1 og);
            p2 = p1\<lparr>connections := AList.update og b (connections p1)\<rparr>
        in if b = [] then p2\<lparr>connections := AList.delete og (connections p2)\<rparr> else p2
      else p)"

definition connections_for_origin ::
  "'a SyncConnectionPool_scheme \<Rightarrow> Origin \<Rightarrow> handle list" where
  "connections_for_origin p og = bucket p og"

definition get_all_connections :: "'a SyncConnectionPool_scheme \<Rightarrow> handle list" where
  "get_all_connections p =
     fold (\<lambda>connection_set cs. List.union connection_set cs) (map snd (connections p)) []"

text \<open>
  Exceptions. \<open>UnsupportedProtocol\<close> carries the scheme that the message quotes;
  \<open>ProxyError\<close> carries its single argument, a message or the exception it wraps.
  Exceptions raised inside collaborators whose code is absent (connection, stream, URL
  helper) are \<open>Collaborator\<close> values and are opaque, apart from
  \<open>NewConnectionRequired\<close>, which the pool handles.
\<close>

datatype collaborator_exn = NewConnectionRequired | OtherException nat

datatype exn =
    UnsupportedProtocol bytes
  | LocalProtocolError string
  | PoolTimeout
  | Collaborator collaborator_exn
  | ProxyError exn_arg
and exn_arg = Message string | Cause exn

text \<open>
  Modelled from the spec: acquiring the backend's semaphore (absent) takes a free slot;
  with no free slot it raises \<^verbatim>\<open>PoolTimeout\<close> when a pool timeout is given and waits
  for ever otherwise, the model having no second thread that could release a slot.
\<close>

datatype 'a acquired = Acquired 'a | TimedOut | Blocked

fun acquire :: "SyncSemaphore \<Rightarrow> real option \<Rightarrow> SyncSemaphore acquired" where
  "acquire NullSemaphore timeout = Acquired NullSemaphore"
| "acquire (BackendSemaphore (Suc n)) timeout = Acquired (BackendSemaphore n)"
| "acquire (BackendSemaphore 0) (Some t) = TimedOut"
| "acquire (BackendSemaphore 0) None = Blocked"

type_synonym TimeoutDict = "string \<rightharpoonup> real"

text \<open>
  \<^verbatim>\<open>_add_to_pool\<close>: acquire the semaphore, then insert under the connection's
  origin. The result is \<open>None\<close> when the call never returns, \<open>Some (Inl e, p)\<close> when it
  raises \<open>e\<close>, \<open>Some (Inr (), p)\<close> when it returns.
\<close>

definition add_to_pool ::
  "'a SyncConnectionPool_scheme \<Rightarrow> handle \<Rightarrow> TimeoutDict
     \<Rightarrow> ((exn + unit) \<times> 'a SyncConnectionPool_scheme) option" where
  "add_to_pool p connection timeout =
     (let (s, p1) = connection_semaphore p in
      case acquire s (timeout ''pool'') of
        Blocked \<Rightarrow> None
      | TimedOut \<Rightarrow> Some (Inl PoolTimeout, p1)
      | Acquired s' \<Rightarrow>
          (let p2 = p1\<lparr>internal_semaphore := Some s', trace := trace p1 @ [SemAcquire]\<rparr>;
               og = origin (heap p2 connection)
           in Some (Inr (),
                p2\<lparr>connections :=
                      AList.update og (List.insert connection (bucket p2 og)) (connections p2)\<rparr>)))"

section \<open>Connection handle operations\<close>

text \<open>
  Modelled from the spec: \<^verbatim>\<open>mark_as_ready()\<close> of the absent
  \<^verbatim>\<open>connection.py\<close> moves an IDLE handle to READY and leaves any other handle as it
  is; \<^verbatim>\<open>close()\<close> is terminal and sets the state to CLOSED.
\<close>

definition mark_as_ready ::
  "'a SyncConnectionPool_scheme \<Rightarrow> handle \<Rightarrow> 'a SyncConnectionPool_scheme" where
  "mark_as_ready p c =
     p\<lparr>heap := (heap p)(c := (heap p c)\<lparr>state := (if state (heap p c) = IDLE then READY
                                                   else state (heap p c))\<rparr>),
       trace := trace p @ [MarkAsReady c]\<rparr>"

definition connection_close ::
  "handle \<Rightarrow> 'a SyncConnectionPool_scheme \<Rightarrow> 'a SyncConnectionPool_scheme" where
  "connection_close c p =
     p\<lparr>heap := (heap p)(c := (heap p c)\<lparr>state := CLOSED\<rparr>),
       trace := trace p @ [ConnClose c]\<rparr>"

definition set_expires_at ::
  "'a SyncConnectionPool_scheme \<Rightarrow> handle \<Rightarrow> real option \<Rightarrow> 'a SyncConnectionPool_scheme" where
  "set_expires_at p c e = p\<lparr>heap := (heap p)(c := (heap p c)\<lparr>expires_at := e\<rparr>)\<rparr>"

section \<open>Reuse selection\<close>

text \<open>The local variables of the loop of \<^verbatim>\<open>_get_connection_from_pool\<close>.\<close>

record scan =
  seen_http11 :: bool
  pending_connection :: "handle option"
  reuse_connection :: "handle option"
  connections_to_close :: "handle list"

text \<open>One pass of the loop body, for the handle \<open>connection\<close>.\<close>

definition scan_step ::
  "handle \<Rightarrow> scan \<times> 'a SyncConnectionPool_scheme \<Rightarrow> scan \<times> 'a SyncConnectionPool_scheme" where
  "scan_step connection sp =
     (let (s, p) = sp;
          c = heap p connection;
          s1 = (if is_http11 c then s\<lparr>seen_http11 := True\<rparr> else s)
      in if state c = IDLE then
           (if is_socket_readable c then
              (s1\<lparr>connections_to_close := List.insert connection (connections_to_close s1)\<rparr>,
               remove_from_pool p connection)
            else (s1\<lparr>reuse_connection := Some connection\<rparr>, p))
         else if state c = ACTIVE \<and> is_http2 c then
           (s1\<lparr>reuse_connection := Some connection\<rparr>, p)
         else if state c = PENDING then
           (s1\<lparr>pending_connection := Some connection\<rparr>, p)
         else (s1, p))"

definition get_connection_from_pool ::
  "'a SyncConnectionPool_scheme \<Rightarrow> Origin \<Rightarrow> handle option \<times> 'a SyncConnectionPool_scheme" where
  "get_connection_from_pool p og =
     (let s0 = \<lparr>seen_http11 = False, pending_connection = None, reuse_connection = None,
                connections_to_close = []\<rparr>;
          (s, p1) = fold scan_step (connections_for_origin p og) (s0, p);
          (r, p2) =
            (case reuse_connection s of
               Some rc \<Rightarrow> (Some rc, set_expires_at (mark_as_ready p1 rc) rc None)
             | None \<Rightarrow>
                 if http2 p1 \<and> pending_connection s \<noteq> None \<and> \<not> seen_http11 s
                 then (pending_connection s, p1)
                 else (None, p1))
      in (r, fold connection_close (connections_to_close s) p2))"

section \<open>Response closed, keep-alive sweep, shutdown\<close>

text \<open>
  \<open>now\<close> is the value that \<^verbatim>\<open>self._backend.time()\<close> returns in this call.
\<close>

definition response_closed ::
  "'a SyncConnectionPool_scheme \<Rightarrow> real \<Rightarrow> handle \<Rightarrow> 'a SyncConnectionPool_scheme" where
  "response_closed p now connection =
     (let (remove, close_connection, p1) =
            (if state (heap p connection) = CLOSED then (True, False, p)
             else if state (heap p connection) = IDLE then
               (let num_connections = int (length (get_all_connections p)) in
                case max_keepalive_connections p of
                  Some m \<Rightarrow>
                    if num_connections > m then (True, True, p)
                    else (case keepalive_expiry p of
                            Some e \<Rightarrow> (False, False, set_expires_at p connection (Some (now + e)))
                          | None \<Rightarrow> (False, False, p))
                | None \<Rightarrow>
                    (case keepalive_expiry p of
                       Some e \<Rightarrow> (False, False, set_expires_at p connection (Some (now + e)))
                     | None \<Rightarrow> (False, False, p)))
             else (False, False, p));
          p2 = (if remove then remove_from_pool p1 connection else p1)
      in if close_connection then connection_close connection p2 else p2)"

text \<open>One pass of the loop body of \<^verbatim>\<open>_keepalive_sweep\<close>.\<close>

definition sweep_step ::
  "real \<Rightarrow> handle \<Rightarrow> handle list \<times> 'a SyncConnectionPool_scheme
     \<Rightarrow> handle list \<times> 'a SyncConnectionPool_scheme" where
  "sweep_step now connection tp =
     (let (to_close, p) = tp; c = heap p connection in
      if state c = IDLE \<and> expires_at c \<noteq> None \<and> now \<ge> the (expires_at c)
      then (List.insert connection to_close, remove_from_pool p connection)
      else (to_close, p))"

definition keepalive_sweep ::
  "'a SyncConnectionPool_scheme \<Rightarrow> real \<Rightarrow> 'a SyncConnectionPool_scheme" where
  "keepalive_sweep p now =
     (case keepalive_expiry p of
        None \<Rightarrow> p
      | Some e \<Rightarrow>
          if now < next_keepalive_check p then p
          else
            (let p1 = p\<lparr>next_keepalive_check := now + min 1 e\<rparr>;
                 (to_close, p2) = fold (sweep_step now) (get_all_connections p1) ([], p1)
             in fold connection_close to_close p2))"

text \<open>\<^verbatim>\<open>SyncConnectionPool.close\<close>\<close>

definition close :: "'a SyncConnectionPool_scheme \<Rightarrow> 'a SyncConnectionPool_scheme" where
  "close p =
     (let cs = get_all_connections p;
          p1 = fold (\<lambda>connection q. remove_from_pool q connection) cs p
      in fold connection_close cs p1)"

section \<open>Collaborators\<close>

text \<open>
  The code of the connection objects, of the response streams and of the helpers of
  \<^verbatim>\<open>_utils.py\<close> is absent. What they do is a parameter of the model: each call
  reads and may change the connection objects, and returns a value or raises.
  \<open>reason_phrase\<close> is the table of \<^verbatim>\<open>http.HTTPStatus\<close>, \<open>None\<close> where
  \<^verbatim>\<open>HTTPStatus(status_code)\<close> raises \<^verbatim>\<open>ValueError\<close>.
\<close>

type_synonym stream = nat
type_synonym ext = "string \<rightharpoonup> TimeoutDict"
type_synonym store = "handle \<Rightarrow> SyncHTTPConnection"
type_synonym response = "int \<times> Headers \<times> stream \<times> ext"

record collaborators =
  url_to_origin :: "URL \<Rightarrow> collaborator_exn + Origin"
  connection_request ::
    "handle \<Rightarrow> bytes \<Rightarrow> URL \<Rightarrow> Headers option \<Rightarrow> stream option \<Rightarrow> ext \<Rightarrow> store
       \<Rightarrow> (collaborator_exn + response) \<times> store"
  read_stream :: "stream \<Rightarrow> store \<Rightarrow> collaborator_exn option \<times> store"
  start_tls :: "handle \<Rightarrow> bytes \<Rightarrow> TimeoutDict \<Rightarrow> store \<Rightarrow> collaborator_exn option \<times> store"
  reason_phrase :: "int \<Rightarrow> string option"

text \<open>
  Modelled from the spec: the constructor of \<^verbatim>\<open>SyncHTTPConnection\<close> (absent). A
  new handle is PENDING, has no protocol yet and no expiry, and owns the socket it is given.
\<close>

definition new_connection ::
  "'a SyncConnectionPool_scheme \<Rightarrow> Origin \<Rightarrow> nat option
     \<Rightarrow> handle \<times> 'a SyncConnectionPool_scheme" where
  "new_connection p og sock =
     (fresh p,
      p\<lparr>heap := (heap p)(fresh p :=
              \<lparr>origin = og, state = PENDING, is_http11 = False, is_http2 = False,
               expires_at = None, is_socket_readable = False, socket = sock\<rparr>),
        fresh := Suc (fresh p)\<rparr>)"

text \<open>The stream that \<^verbatim>\<open>request\<close> returns: \<^verbatim>\<open>ResponseByteStream(stream, connection, callback)\<close>.\<close>

datatype ResponseByteStream = ResponseByteStream stream handle

type_synonym pool_response = "int \<times> Headers \<times> ResponseByteStream \<times> ext"

section \<open>Pool request\<close>

text \<open>
  The body of the \<^verbatim>\<open>while connection is None\<close> loop of
  \<^verbatim>\<open>SyncConnectionPool.request\<close>. The loop runs again on
  \<^verbatim>\<open>NewConnectionRequired\<close>; a run that never ends is the result \<open>None\<close>.
\<close>

partial_function (option) request_loop ::
  "collaborators \<Rightarrow> Origin \<Rightarrow> TimeoutDict
     \<Rightarrow> bytes \<times> URL \<times> Headers option \<times> stream option \<times> ext
     \<Rightarrow> 'a SyncConnectionPool_scheme
     \<Rightarrow> ((exn + response \<times> handle) \<times> 'a SyncConnectionPool_scheme) option" where
  "request_loop E og timeout rq p =
     (let (found, p1) = get_connection_from_pool p og in
      case (case found of
              Some c \<Rightarrow> Some (Inr c, p1)
            | None \<Rightarrow>
                (let (c, p2) = new_connection p1 og None in
                 case add_to_pool p2 c timeout of
                   None \<Rightarrow> None
                 | Some (Inl e, p3) \<Rightarrow> Some (Inl e, p3)
                 | Some (Inr u, p3) \<Rightarrow> Some (Inr c, p3))) of
        None \<Rightarrow> None
      | Some (Inl e, p3) \<Rightarrow> Some (Inl e, p3)
      | Some (Inr c, p3) \<Rightarrow>
          (let (method, url, headers, stream, ext) = rq;
               (res, h) = connection_request E c method url headers stream ext (heap p3);
               p4 = p3\<lparr>heap := h, trace := trace p3 @ [ConnRequest c]\<rparr>
           in case res of
                Inl NewConnectionRequired \<Rightarrow> request_loop E og timeout rq p4
              | Inl (OtherException x) \<Rightarrow>
                  Some (Inl (Collaborator (OtherException x)), remove_from_pool p4 c)
              | Inr response \<Rightarrow> Some (Inr (response, c), p4)))"

text \<open>
  \<^verbatim>\<open>SyncConnectionPool.request\<close>; \<open>now\<close> is the backend's time at the sweep.
\<close>

definition request ::
  "collaborators \<Rightarrow> 'a SyncConnectionPool_scheme \<Rightarrow> real
     \<Rightarrow> bytes \<Rightarrow> URL \<Rightarrow> Headers option \<Rightarrow> stream option \<Rightarrow> ext option
     \<Rightarrow> ((exn + pool_response) \<times> 'a SyncConnectionPool_scheme) option" where
  "request E p now method url headers stream ext =
     (let (scheme, host, port, path) = url in
      if scheme \<notin> set [''http'', ''https''] then Some (Inl (UnsupportedProtocol scheme), p)
      else if host = [] then Some (Inl (LocalProtocolError ''Missing hostname in URL.''), p)
      else
        case url_to_origin E url of
          Inl e \<Rightarrow> Some (Inl (Collaborator e), p)
        | Inr og \<Rightarrow>
            (let ext1 = (case ext of None \<Rightarrow> Map.empty | Some x \<Rightarrow> x);
                 timeout = (case ext1 ''timeout'' of None \<Rightarrow> Map.empty | Some t \<Rightarrow> t);
                 p1 = keepalive_sweep p now
             in case request_loop E og timeout (method, url, headers, stream, ext1) p1 of
                  None \<Rightarrow> None
                | Some (Inl e, p2) \<Rightarrow> Some (Inl e, p2)
                | Some (Inr ((status_code, hs, st, ext2), c), p2) \<Rightarrow>
                    Some (Inr (status_code, hs, ResponseByteStream st c, ext2), p2)))"

section \<open>HTTP proxy\<close>

text \<open>\<^verbatim>\<open>bytes.lower()\<close>: the ASCII capital letters are mapped to small letters.\<close>

definition lower_byte :: "char \<Rightarrow> char" where
  "lower_byte c =
     (let n = (of_char c :: nat) in if 65 \<le> n \<and> n \<le> 90 then char_of (n + 32) else c)"

definition lower :: "bytes \<Rightarrow> bytes" where
  "lower key = map lower_byte key"

definition merge_headers :: "Headers option \<Rightarrow> Headers option \<Rightarrow> Headers" where
  "merge_headers default_headers override_headers =
     (let default_headers1 = (case default_headers of None \<Rightarrow> [] | Some h \<Rightarrow> h);
          override_headers1 = (case override_headers of None \<Rightarrow> [] | Some h \<Rightarrow> h);
          has_override = set (map (\<lambda>(key, value). lower key) override_headers1);
          default_headers2 =
            filter (\<lambda>(key, value). lower key \<notin> has_override) default_headers1
      in default_headers2 @ override_headers1)"

definition get_reason_phrase :: "collaborators \<Rightarrow> int \<Rightarrow> string" where
  "get_reason_phrase E status_code =
     (case reason_phrase E status_code of Some phrase \<Rightarrow> phrase | None \<Rightarrow> [])"

text \<open>The conversion \<^verbatim>\<open>%d\<close> of the formatting operator: an integer in decimal.\<close>

function dec_nat :: "nat \<Rightarrow> string" where
  "dec_nat n =
     (if n < 10 then [char_of (48 + n)] else dec_nat (n div 10) @ [char_of (48 + n mod 10)])"
  by pat_completeness auto
termination
  by (relation "measure (\<lambda>n. n)") auto

definition dec_int :: "int \<Rightarrow> string" where
  "dec_int i = (if i < 0 then CHR ''-'' # dec_nat (nat (- i)) else dec_nat (nat i))"

datatype proxy_mode = DEFAULT | FORWARD_ONLY | TUNNEL_ONLY

record SyncHTTPProxy = SyncConnectionPool +
  proxy_origin :: Origin
  proxy_headers :: Headers
  proxy_mode :: proxy_mode

text \<open>\<^verbatim>\<open>self.proxy_origin + (target,)\<close>\<close>

definition origin_with_target :: "Origin \<Rightarrow> bytes \<Rightarrow> URL" where
  "origin_with_target og target = (case og of (scheme, host, port) \<Rightarrow> (scheme, host, Some port, target))"

text \<open>
  The last step of both proxy paths: the request on the connection, and the wrapping of
  the stream. An exception of the connection propagates.
\<close>

definition send_request ::
  "collaborators \<Rightarrow> 'a SyncConnectionPool_scheme \<Rightarrow> handle
     \<Rightarrow> bytes \<Rightarrow> URL \<Rightarrow> Headers option \<Rightarrow> stream option \<Rightarrow> ext
     \<Rightarrow> ((exn + pool_response) \<times> 'a SyncConnectionPool_scheme) option" where
  "send_request E p connection method url headers stream ext =
     (let (res, h) = connection_request E connection method url headers stream ext (heap p);
          p1 = p\<lparr>heap := h, trace := trace p @ [ConnRequest connection]\<rparr>
      in case res of
           Inl e \<Rightarrow> Some (Inl (Collaborator e), p1)
         | Inr (status_code, hs, st, ext2) \<Rightarrow>
             Some (Inr (status_code, hs, ResponseByteStream st connection, ext2), p1))"

definition forward_request ::
  "collaborators \<Rightarrow> 'a SyncHTTPProxy_scheme
     \<Rightarrow> bytes \<Rightarrow> URL \<Rightarrow> Headers option \<Rightarrow> stream option \<Rightarrow> ext option
     \<Rightarrow> ((exn + pool_response) \<times> 'a SyncHTTPProxy_scheme) option" where
  "forward_request E p method url headers stream ext =
     (let ext1 = (case ext of None \<Rightarrow> Map.empty | Some x \<Rightarrow> x);
          timeout = (case ext1 ''timeout'' of None \<Rightarrow> Map.empty | Some t \<Rightarrow> t);
          og = proxy_origin p;
          (found, p1) = get_connection_from_pool p og
      in case (case found of
                 Some c \<Rightarrow> Some (Inr c, p1)
               | None \<Rightarrow>
                   (let (c, p2) = new_connection p1 og None in
                    case add_to_pool p2 c timeout of
                      None \<Rightarrow> None
                    | Some (Inl e, p3) \<Rightarrow> Some (Inl e, p3)
                    | Some (Inr u, p3) \<Rightarrow> Some (Inr c, p3))) of
           None \<Rightarrow> None
         | Some (Inl e, p3) \<Rightarrow> Some (Inl e, p3)
         | Some (Inr connection, p3) \<Rightarrow>
             (let (scheme, host, port, path) = url;
                  target = (case port of
                              None \<Rightarrow> scheme @ ''://'' @ host @ path
                            | Some n \<Rightarrow> scheme @ ''://'' @ host @ '':'' @ dec_int n @ path);
                  url1 = origin_with_target (proxy_origin p3) target;
                  headers1 = merge_headers (Some (proxy_headers p3)) headers
              in send_request E p3 connection method url1 (Some headers1) stream ext1))"

text \<open>
  The \<^verbatim>\<open>try\<close> block of \<^verbatim>\<open>_tunnel_request\<close>: the CONNECT request on the
  auxiliary connection, the draining of its response, the status check and the TLS
  upgrade. The first component is the exception raised inside the block, if any.
\<close>

definition connect_handshake ::
  "collaborators \<Rightarrow> 'a SyncConnectionPool_scheme \<Rightarrow> handle \<Rightarrow> Origin
     \<Rightarrow> URL \<Rightarrow> Headers \<Rightarrow> TimeoutDict \<Rightarrow> ext
     \<Rightarrow> exn option \<times> 'a SyncConnectionPool_scheme" where
  "connect_handshake E p proxy_connection og connect_url connect_headers timeout ext =
     (let (scheme, host, port) = og;
          (res, h) = connection_request E proxy_connection ''CONNECT'' connect_url
                       (Some connect_headers) None ext (heap p);
          p1 = p\<lparr>heap := h, trace := trace p @ [ConnRequest proxy_connection]\<rparr>
      in case res of
           Inl e \<Rightarrow> (Some (Collaborator e), p1)
         | Inr (proxy_status_code, hs, proxy_stream, ext2) \<Rightarrow>
             (let proxy_reason = get_reason_phrase E proxy_status_code;
                  (r, h2) = read_stream E proxy_stream (heap p1);
                  p2 = p1\<lparr>heap := h2\<rparr>
              in case r of
                   Some e \<Rightarrow> (Some (Collaborator e), p2)
                 | None \<Rightarrow>
                     if proxy_status_code < 200 \<or> proxy_status_code > 299 then
                       (Some (ProxyError
                                (Message (dec_int proxy_status_code @ '' '' @ proxy_reason))), p2)
                     else if scheme = ''https'' then
                       (let (r3, h3) = start_tls E proxy_connection host timeout (heap p2);
                            p3 = p2\<lparr>heap := h3, trace := trace p2 @ [StartTLS proxy_connection]\<rparr>
                        in (map_option Collaborator r3, p3))
                     else (None, p2)))"

text \<open>
  The branch \<^verbatim>\<open>if connection is None\<close> of \<^verbatim>\<open>_tunnel_request\<close>: the auxiliary
  connection to the proxy, the handshake under \<^verbatim>\<open>try\<close>, its \<^verbatim>\<open>except\<close> clause,
  and the new pooled connection on the same socket.
\<close>

definition tunnel_connect ::
  "collaborators \<Rightarrow> 'a SyncHTTPProxy_scheme \<Rightarrow> Origin \<Rightarrow> TimeoutDict \<Rightarrow> ext
     \<Rightarrow> ((exn + handle) \<times> 'a SyncHTTPProxy_scheme) option" where
  "tunnel_connect E p og timeout ext =
     (let (scheme, host, port) = og;
          (proxy_connection, p1) = new_connection p (proxy_origin p) None;
          target = host @ '':'' @ dec_int port;
          connect_url = origin_with_target (proxy_origin p1) target;
          connect_headers =
            merge_headers (Some [(''Host'', target), (''Accept'', ''*/*'')])
              (Some (proxy_headers p1));
          (raised, p2) =
            connect_handshake E p1 proxy_connection og connect_url connect_headers timeout ext
      in case raised of
           Some exc \<Rightarrow>
             Some (Inl (ProxyError (Cause exc)), connection_close proxy_connection p2)
         | None \<Rightarrow>
             (let (connection, p3) = new_connection p2 og (socket (heap p2 proxy_connection)) in
              case add_to_pool p3 connection timeout of
                None \<Rightarrow> None
              | Some (Inl e, p4) \<Rightarrow> Some (Inl e, p4)
              | Some (Inr u, p4) \<Rightarrow> Some (Inr connection, p4)))"

definition tunnel_request ::
  "collaborators \<Rightarrow> 'a SyncHTTPProxy_scheme
     \<Rightarrow> bytes \<Rightarrow> URL \<Rightarrow> Headers option \<Rightarrow> stream option \<Rightarrow> ext option
     \<Rightarrow> ((exn + pool_response) \<times> 'a SyncHTTPProxy_scheme) option" where
  "tunnel_request E p method url headers stream ext =
     (let ext1 = (case ext of None \<Rightarrow> Map.empty | Some x \<Rightarrow> x);
          timeout = (case ext1 ''timeout'' of None \<Rightarrow> Map.empty | Some t \<Rightarrow> t)
      in case url_to_origin E url of
           Inl e \<Rightarrow> Some (Inl (Collaborator e), p)
         | Inr og \<Rightarrow>
             (let (found, p1) = get_connection_from_pool p og in
              case (case found of
                      Some c \<Rightarrow> Some (Inr c, p1)
                    | None \<Rightarrow> tunnel_connect E p1 og timeout ext1) of
                None \<Rightarrow> None
              | Some (Inl e, p2) \<Rightarrow> Some (Inl e, p2)
              | Some (Inr connection, p2) \<Rightarrow>
                  send_request E p2 connection method url headers stream ext1))"

text \<open>\<^verbatim>\<open>SyncHTTPProxy.request\<close>\<close>

definition proxy_request ::
  "collaborators \<Rightarrow> 'a SyncHTTPProxy_scheme \<Rightarrow> real
     \<Rightarrow> bytes \<Rightarrow> URL \<Rightarrow> Headers option \<Rightarrow> stream option \<Rightarrow> ext option
     \<Rightarrow> ((exn + pool_response) \<times> 'a SyncHTTPProxy_scheme) option" where
  "proxy_request E p now method url headers stream ext =
     (let p1 = (if keepalive_expiry p \<noteq> None then keepalive_sweep p now else p) in
      if (proxy_mode p1 = DEFAULT \<and> fst url = ''http'') \<or> proxy_mode p1 = FORWARD_ONLY
      then forward_request E p1 method url headers stream ext
      else tunnel_request E p1 method url headers stream ext)"

section \<open>Vocabulary of the properties\<close>

text \<open>
  The invariant of the pool between operations: the dict has one entry per origin, no
  bucket is empty, and every handle sits in the bucket of its own origin.
\<close>

definition pool_inv :: "'a SyncConnectionPool_scheme \<Rightarrow> bool" where
  "pool_inv p \<longleftrightarrow>
     distinct (map fst (connections p)) \<and>
     (\<forall>x \<in> set (connections p). snd x \<noteq> [] \<and> (\<forall>c \<in> set (snd x). origin (heap p c) = fst x))"

text \<open>The removals of \<^verbatim>\<open>_remove_from_pool\<close>, one handle after the other.\<close>

abbreviation remove_each ::
  "handle list \<Rightarrow> 'a SyncConnectionPool_scheme \<Rightarrow> 'a SyncConnectionPool_scheme" where
  "remove_each xs p \<equiv> fold (\<lambda>connection q. remove_from_pool q connection) xs p"

text \<open>
  A connection is expired at \<open>now\<close>, dropped by its peer, or a candidate for reuse, as
  the conditions of \<^verbatim>\<open>_keepalive_sweep\<close> and \<^verbatim>\<open>_get_connection_from_pool\<close>
  have it. \<open>pick_last\<close> is the last element of a list with a property, a default
  otherwise: the value of a variable that a loop overwrites.
\<close>

definition expired :: "real \<Rightarrow> SyncHTTPConnection \<Rightarrow> bool" where
  "expired now c \<longleftrightarrow>
     state c = IDLE \<and> (case expires_at c of None \<Rightarrow> False | Some t \<Rightarrow> now \<ge> t)"

definition dead :: "SyncHTTPConnection \<Rightarrow> bool" where
  "dead c \<longleftrightarrow> state c = IDLE \<and> is_socket_readable c"

definition reusable :: "SyncHTTPConnection \<Rightarrow> bool" where
  "reusable c \<longleftrightarrow> (state c = IDLE \<and> \<not> is_socket_readable c) \<or> (state c = ACTIVE \<and> is_http2 c)"

definition pick_last :: "('a \<Rightarrow> bool) \<Rightarrow> 'a list \<Rightarrow> 'a option \<Rightarrow> 'a option" where
  "pick_last P xs d = fold (\<lambda>x r. if P x then Some x else r) xs d"

text \<open>
  The merge of header lists in the words of the specification: the entries of the default
  list whose key does not occur, compared without regard to case, among the keys of the
  override list, followed by the override list.
\<close>

definition ci_equal :: "bytes \<Rightarrow> bytes \<Rightarrow> bool" where
  "ci_equal a b \<longleftrightarrow> lower a = lower b"

definition merge_headers_spec :: "Headers \<Rightarrow> Headers \<Rightarrow> Headers" where
  "merge_headers_spec default_headers override_headers =
     filter (\<lambda>d. \<not> (\<exists>ov \<in> set override_headers. ci_equal (fst d) (fst ov))) default_headers
       @ override_headers"

definition headers_or_empty :: "Headers option \<Rightarrow> Headers" where
  "headers_or_empty h = (case h of None \<Rightarrow> [] | Some hs \<Rightarrow> hs)"

text \<open>
  Python's \<^verbatim>\<open>str()\<close> of an exception built from one argument is \<^verbatim>\<open>str()\<close> of that
  argument; it is \<open>None\<close> where the text comes from code that is absent.
  \<open>validation_error\<close> holds of the two exceptions that \<^verbatim>\<open>SyncConnectionPool.request\<close>
  raises for a URL it rejects.
\<close>

fun str_exn :: "exn \<Rightarrow> string option" where
  "str_exn (ProxyError (Message m)) = Some m"
| "str_exn (ProxyError (Cause e)) = str_exn e"
| "str_exn (LocalProtocolError m) = Some m"
| "str_exn (UnsupportedProtocol scheme) = None"
| "str_exn PoolTimeout = None"
| "str_exn (Collaborator e) = None"

definition validation_error :: "exn \<Rightarrow> bool" where
  "validation_error e =
     (case e of UnsupportedProtocol scheme \<Rightarrow> True | LocalProtocolError m \<Rightarrow> True | _ \<Rightarrow> False)"

section \<open>Example states\<close>

definition example_origin :: Origin where
  "example_origin = (''http'', ''a.test'', 80)"

definition idle_connection :: SyncHTTPConnection where
  "idle_connection =
     \<lparr>origin = example_origin, state = IDLE, is_http11 = True, is_http2 = False,
      expires_at = Some 5, is_socket_readable = False, socket = None\<rparr>"

text \<open>A pool of at most ten connections that holds the one idle connection \<open>0\<close>.\<close>

definition example_pool :: SyncConnectionPool where
  "example_pool =
     \<lparr>max_connections = Some 10, max_keepalive_connections = None,
      keepalive_expiry = Some 60, http2 = False,
      connections = [(example_origin, [0])],
      internal_semaphore = Some (BackendSemaphore 9), next_keepalive_check = 0,
      heap = (\<lambda>h. idle_connection), fresh = 1, trace = []\<rparr>"

text \<open>
  A pool with HTTP/2 enabled that holds three connections for two origins: \<open>0\<close> is idle,
  \<open>1\<close> is idle and its peer has gone, \<open>2\<close> is pending. In \<open>closed_pool\<close> the one
  connection is closed.
\<close>

definition other_origin :: Origin where
  "other_origin = (''https'', ''b.test'', 443)"

definition dropped_connection :: SyncHTTPConnection where
  "dropped_connection =
     \<lparr>origin = example_origin, state = IDLE, is_http11 = True, is_http2 = False,
      expires_at = None, is_socket_readable = True, socket = None\<rparr>"

definition pending_connection_b :: SyncHTTPConnection where
  "pending_connection_b =
     \<lparr>origin = other_origin, state = PENDING, is_http11 = False, is_http2 = False,
      expires_at = None, is_socket_readable = False, socket = None\<rparr>"

definition crowded_pool :: SyncConnectionPool where
  "crowded_pool =
     \<lparr>max_connections = Some 10, max_keepalive_connections = Some 2,
      keepalive_expiry = Some 60, http2 = True,
      connections = [(example_origin, [0, 1]), (other_origin, [2])],
      internal_semaphore = Some (BackendSemaphore 7), next_keepalive_check = 0,
      heap = (\<lambda>h. idle_connection)(1 := dropped_connection, 2 := pending_connection_b),
      fresh = 3, trace = []\<rparr>"

definition closed_pool :: SyncConnectionPool where
  "closed_pool = example_pool\<lparr>heap := (\<lambda>h. idle_connection\<lparr>state := CLOSED\<rparr>)\<rparr>"

text \<open>
  Collaborators for the examples: a proxy that answers CONNECT with 403 and any other
  request with 200; one that accepts CONNECT and whose TLS upgrade fails. A proxy pool with
  no connection yet, in the default mode and in the forward-only mode.
\<close>

definition example_collaborators :: collaborators where
  "example_collaborators =
     \<lparr>url_to_origin =
        (\<lambda>(scheme, host, port, path).
           if scheme = ''http'' then Inr (scheme, host, (case port of None \<Rightarrow> 80 | Some n \<Rightarrow> n))
           else if scheme = ''https''
             then Inr (scheme, host, (case port of None \<Rightarrow> 443 | Some n \<Rightarrow> n))
           else Inl (OtherException 0)),
      connection_request =
        (\<lambda>c method url headers stream ext st.
           (Inr (if method = ''CONNECT'' then 403 else 200, [], 0, ext), st)),
      read_stream = (\<lambda>s st. (None, st)),
      start_tls = (\<lambda>c host timeout st. (None, st)),
      reason_phrase =
        (\<lambda>n. if n = 200 then Some ''OK'' else if n = 403 then Some ''Forbidden'' else None)\<rparr>"

definition example_proxy :: SyncHTTPProxy where
  "example_proxy =
     \<lparr>max_connections = None, max_keepalive_connections = None,
      keepalive_expiry = None, http2 = False,
      connections = [],
      internal_semaphore = None, next_keepalive_check = 0,
      heap = (\<lambda>h. idle_connection), fresh = 0, trace = [],
      proxy_origin = (''http'', ''p'', 8080), proxy_headers = [],
      proxy_mode = DEFAULT\<rparr>"

definition broken_tls :: collaborators where
  "broken_tls =
     example_collaborators
       \<lparr>connection_request :=
          (\<lambda>c method url headers stream ext st. (Inr (200, [], 0, ext), st)),
        start_tls := (\<lambda>c host timeout st. (Some (OtherException 7), st))\<rparr>"

text \<open>A proxy that answers CONNECT with 403 and whose response body cannot be read.\<close>

definition failing_drain :: collaborators where
  "failing_drain =
     example_collaborators\<lparr>read_stream := (\<lambda>s st. (Some (OtherException 5), st))\<rparr>"

definition forwarding_proxy :: SyncHTTPProxy where
  "forwarding_proxy = example_proxy\<lparr>proxy_mode := FORWARD_ONLY\<rparr>"

section \<open>Properties of the bookkeeping\<close>

lemmas ex_defs = crowded_pool_def example_pool_def idle_connection_def dropped_connection_def
  pending_connection_b_def example_origin_def other_origin_def

lemma crowded_all: "get_all_connections crowded_pool = [2, 1, 0]"
  by (simp add: get_all_connections_def crowded_pool_def List.union_def)

lemma crowded_inv: "pool_inv crowded_pool"
  by (simp add: pool_inv_def ex_defs)

lemma example_inv: "pool_inv example_pool"
  by (simp add: pool_inv_def ex_defs)

lemma closed_inv: "pool_inv closed_pool"
  by (simp add: pool_inv_def closed_pool_def ex_defs)

lemma example_all: "get_all_connections example_pool = [0]"
  by (simp add: get_all_connections_def example_pool_def List.union_def)

lemma closed_all: "get_all_connections closed_pool = [0]"
  by (simp add: get_all_connections_def closed_pool_def example_pool_def List.union_def)

lemma bucket_semaphore_release [simp]: "bucket (semaphore_release p) og = bucket p og"
  by (simp add: bucket_def semaphore_release_def connection_semaphore_def Let_def
      split: option.splits prod.splits)

lemma connections_semaphore_release [simp]:
  "connections (semaphore_release p) = connections p"
  by (simp add: semaphore_release_def connection_semaphore_def Let_def
      split: option.splits prod.splits)

lemma heap_semaphore_release [simp]: "heap (semaphore_release p) = heap p"
  by (simp add: semaphore_release_def connection_semaphore_def Let_def
      split: option.splits prod.splits)

lemma trace_semaphore_release [simp]:
  "trace (semaphore_release p) = trace p @ [SemRelease]"
  by (simp add: semaphore_release_def connection_semaphore_def Let_def
      split: option.splits prod.splits)

lemma internal_semaphore_release [simp]:
  "internal_semaphore (semaphore_release p) = Some (release (fst (connection_semaphore p)))"
  by (simp add: semaphore_release_def connection_semaphore_def Let_def
      split: option.splits prod.splits)

lemma heap_remove_from_pool [simp]: "heap (remove_from_pool p c) = heap p"
  by (simp add: remove_from_pool_def Let_def)

lemma map_of_remove_from_pool:
  "map_of (connections (remove_from_pool p c)) =
     (let og = origin (heap p c) in
      if c \<in> set (bucket p og) then
        (if removeAll c (bucket p og) = [] then (map_of (connections p))(og := None)
         else (map_of (connections p))(og \<mapsto> removeAll c (bucket p og)))
      else map_of (connections p))"
  by (simp add: remove_from_pool_def Let_def update_conv' delete_conv')

lemma bucket_remove_from_pool:
  "bucket (remove_from_pool p c) og =
     (if og = origin (heap p c) then removeAll c (bucket p og) else bucket p og)"
  by (auto simp add: bucket_def map_of_remove_from_pool Let_def split: option.splits)

lemma remove_absent:
  "c \<notin> set (bucket p (origin (heap p c))) \<Longrightarrow> remove_from_pool p c = p"
  by (simp add: remove_from_pool_def Let_def)

text \<open>
  C1. \<^verbatim>\<open>_remove_from_pool(c)\<close>: exactly when \<open>c\<close> is in the set of its origin, the
  semaphore is released (once) and \<open>c\<close> leaves that set, the bucket is deleted when it
  becomes empty, and every other bucket and every connection object stays as it is;
  when \<open>c\<close> is absent the call changes nothing. A second call changes nothing: removing
  twice gives the same pool and semaphore as removing once.
\<close>

theorem remove_from_pool_correct:
  fixes p :: "'a SyncConnectionPool_scheme" and c :: handle
  defines "og \<equiv> origin (heap p c)"
  defines "p' \<equiv> remove_from_pool p c"
  shows "(c \<in> set (bucket p og) \<longrightarrow>
            internal_semaphore p' = Some (release (fst (connection_semaphore p)))
          \<and> trace p' = trace p @ [SemRelease]
          \<and> set (bucket p' og) = set (bucket p og) - {c}
          \<and> (set (bucket p og) \<subseteq> {c} \<longrightarrow> map_of (connections p') og = None)
          \<and> (\<forall>og'. og' \<noteq> og \<longrightarrow> map_of (connections p') og' = map_of (connections p) og')
          \<and> heap p' = heap p)
       \<and> (c \<notin> set (bucket p og) \<longrightarrow> p' = p)
       \<and> remove_from_pool p' c = p'"
proof (cases "c \<in> set (bucket p og)")
  case True
  have "internal_semaphore p' = Some (release (fst (connection_semaphore p)))"
    using True by (simp add: p'_def og_def remove_from_pool_def Let_def)
  moreover have "trace p' = trace p @ [SemRelease]"
    using True by (simp add: p'_def og_def remove_from_pool_def Let_def)
  moreover have "set (bucket p' og) = set (bucket p og) - {c}"
    by (auto simp add: p'_def og_def bucket_remove_from_pool)
  moreover have "set (bucket p og) \<subseteq> {c} \<Longrightarrow> map_of (connections p') og = None"
  proof -
    assume "set (bucket p og) \<subseteq> {c}"
    then have "removeAll c (bucket p og) = []"
      by (metis Diff_eq_empty_iff set_empty set_removeAll)
    then show ?thesis using True
      by (simp add: p'_def og_def map_of_remove_from_pool Let_def)
  qed
  moreover have "\<forall>og'. og' \<noteq> og \<longrightarrow> map_of (connections p') og' = map_of (connections p) og'"
    by (simp add: p'_def og_def map_of_remove_from_pool Let_def)
  moreover have "remove_from_pool p' c = p'"
    by (rule remove_absent) (simp add: p'_def bucket_remove_from_pool)
  ultimately show ?thesis using True by (simp add: p'_def)
next
  case False
  then have "p' = p" by (simp add: p'_def og_def remove_absent)
  with False show ?thesis by (simp add: og_def remove_absent)
qed

theorem remove_from_pool_correct_witness:
  "0 \<in> set (bucket example_pool (origin (heap example_pool 0)))
   \<and> set (bucket example_pool (origin (heap example_pool 0))) \<subseteq> {0}
   \<and> internal_semaphore (remove_from_pool example_pool 0) = Some (BackendSemaphore 10)
   \<and> trace (remove_from_pool example_pool 0) = [SemRelease]
   \<and> map_of (connections (remove_from_pool example_pool 0)) example_origin = None
   \<and> remove_from_pool (remove_from_pool example_pool 0) 0 = remove_from_pool example_pool 0"
  using remove_from_pool_correct [of 0 example_pool]
  by (simp add: example_pool_def idle_connection_def bucket_def connection_semaphore_def)

lemma set_fold_union:
  "set (fold (\<lambda>connection_set cs. List.union connection_set cs) xs acc) = set acc \<union> (\<Union>b \<in> set xs. set b)"
  by (induction xs arbitrary: acc) auto

lemma distinct_fold_union:
  "distinct acc \<Longrightarrow> distinct (fold (\<lambda>connection_set cs. List.union connection_set cs) xs acc)"
  by (induction xs arbitrary: acc) auto

lemma set_get_all_connections:
  "set (get_all_connections p) = (\<Union>(og, b) \<in> set (connections p). set b)"
  by (auto simp add: get_all_connections_def set_fold_union)

lemma distinct_get_all_connections [simp]: "distinct (get_all_connections p)"
  by (simp add: get_all_connections_def distinct_fold_union)

lemma pool_inv_map_of:
  "pool_inv p \<longleftrightarrow>
     distinct (map fst (connections p)) \<and>
     (\<forall>og b. map_of (connections p) og = Some b \<longrightarrow> b \<noteq> [] \<and> (\<forall>c \<in> set b. origin (heap p c) = og))"
proof (cases "distinct (map fst (connections p))")
  case True
  then have eq: "\<And>og b. (map_of (connections p) og = Some b) = ((og, b) \<in> set (connections p))"
    by simp
  have "(\<forall>x \<in> set (connections p). snd x \<noteq> [] \<and> (\<forall>c \<in> set (snd x). origin (heap p c) = fst x))
      = (\<forall>og b. (og, b) \<in> set (connections p) \<longrightarrow> b \<noteq> [] \<and> (\<forall>c \<in> set b. origin (heap p c) = og))"
    by (simp only: Ball_def split_paired_All fst_conv snd_conv)
  then show ?thesis unfolding pool_inv_def eq using True by simp
next
  case False
  then show ?thesis by (simp add: pool_inv_def)
qed

lemma pooled_iff:
  assumes "pool_inv p"
  shows "c \<in> set (get_all_connections p) \<longleftrightarrow> c \<in> set (bucket p (origin (heap p c)))"
proof
  assume "c \<in> set (get_all_connections p)"
  then obtain og b where ob: "(og, b) \<in> set (connections p)" "c \<in> set b"
    by (auto simp add: set_get_all_connections)
  with assms have "origin (heap p c) = og" "map_of (connections p) og = Some b"
    unfolding pool_inv_def by force+
  with ob show "c \<in> set (bucket p (origin (heap p c)))" by (simp add: bucket_def)
next
  assume "c \<in> set (bucket p (origin (heap p c)))"
  then obtain b where "map_of (connections p) (origin (heap p c)) = Some b" "c \<in> set b"
    by (cases "map_of (connections p) (origin (heap p c))") (simp_all add: bucket_def)
  then show "c \<in> set (get_all_connections p)"
    by (auto simp add: set_get_all_connections dest: map_of_SomeD)
qed

lemma pool_inv_remove_from_pool:
  assumes "pool_inv p"
  shows "pool_inv (remove_from_pool p c)"
proof -
  have d: "distinct (map fst (connections (remove_from_pool p c)))"
    using assms by (simp add: remove_from_pool_def Let_def pool_inv_def distinct_update distinct_delete)
  show ?thesis
    unfolding pool_inv_map_of
  proof (intro conjI allI impI)
    show "distinct (map fst (connections (remove_from_pool p c)))" by (rule d)
  next
    fix og b assume m: "map_of (connections (remove_from_pool p c)) og = Some b"
    from assms have inv: "\<And>og b. map_of (connections p) og = Some b \<Longrightarrow> b \<noteq> [] \<and> (\<forall>c \<in> set b. origin (heap p c) = og)"
      unfolding pool_inv_map_of by blast
    show "b \<noteq> []" using m inv
      by (auto simp add: map_of_remove_from_pool Let_def split: if_splits)
    show "\<forall>x\<in>set b. origin (heap (remove_from_pool p c) x) = og"
    proof (cases "og = origin (heap p c) \<and> c \<in> set (bucket p og)")
      case True
      with m have b: "b = removeAll c (bucket p og)"
        by (simp add: map_of_remove_from_pool Let_def split: if_splits)
      from True obtain b0 where b0: "map_of (connections p) og = Some b0"
        by (cases "map_of (connections p) og") (simp_all add: bucket_def)
      with b have "set b \<subseteq> set b0" by (auto simp add: bucket_def)
      with inv [OF b0] show ?thesis by auto
    next
      case False
      with m have "map_of (connections p) og = Some b"
        by (auto simp add: map_of_remove_from_pool Let_def split: if_splits)
      from inv [OF this] show ?thesis by simp
    qed
  qed
qed

lemma pooled_remove_from_pool:
  assumes "pool_inv p"
  shows "set (get_all_connections (remove_from_pool p c)) = set (get_all_connections p) - {c}"
proof -
  have "\<And>x. x \<in> set (get_all_connections (remove_from_pool p c)) \<longleftrightarrow> x \<in> set (get_all_connections p) - {c}"
    using pooled_iff [OF pool_inv_remove_from_pool [OF assms, of c]] pooled_iff [OF assms]
    by (auto simp add: bucket_remove_from_pool split: if_splits)
  then show ?thesis by blast
qed

lemma empty_pool:
  assumes "pool_inv p" "set (get_all_connections p) = {}"
  shows "connections p = []"
proof (cases "connections p")
  case Nil then show ?thesis .
next
  case (Cons x xs)
  obtain og b where "x = (og, b)" by (cases x)
  with Cons assms(1) have "b \<noteq> []" unfolding pool_inv_def by force
  then obtain c where "c \<in> set b" by (cases b) auto
  with Cons \<open>x = (og, b)\<close> have "c \<in> set (get_all_connections p)"
    by (auto simp add: set_get_all_connections)
  with assms(2) show ?thesis by simp
qed

lemma semaphore_of_release:
  "fst (connection_semaphore (semaphore_release p)) = release (fst (connection_semaphore p))"
  by (simp add: semaphore_release_def connection_semaphore_def Let_def split: option.splits prod.splits)

lemma semaphore_of_remove_from_pool:
  "fst (connection_semaphore (remove_from_pool p c)) =
     (if c \<in> set (bucket p (origin (heap p c))) then release (fst (connection_semaphore p))
      else fst (connection_semaphore p))"
  by (simp add: remove_from_pool_def Let_def connection_semaphore_def semaphore_release_def
      split: option.splits)

lemma trace_remove_from_pool:
  "trace (remove_from_pool p c) =
     (if c \<in> set (bucket p (origin (heap p c))) then trace p @ [SemRelease] else trace p)"
  by (simp add: remove_from_pool_def Let_def)

lemma heap_remove_each [simp]: "heap (remove_each xs p) = heap p"
  by (induction xs arbitrary: p) simp_all

lemma pool_inv_remove_each: "pool_inv p \<Longrightarrow> pool_inv (remove_each xs p)"
  by (induction xs arbitrary: p) (simp_all add: pool_inv_remove_from_pool)

lemma pooled_remove_each:
  "pool_inv p \<Longrightarrow>
     set (get_all_connections (remove_each xs p)) = set (get_all_connections p) - set xs"
proof (induction xs arbitrary: p)
  case Nil
  then show ?case by simp
next
  case (Cons x xs)
  have "set (get_all_connections (remove_each xs (remove_from_pool p x)))
          = set (get_all_connections (remove_from_pool p x)) - set xs"
    by (rule Cons.IH) (rule pool_inv_remove_from_pool [OF Cons.prems])
  then show ?case by (auto simp add: pooled_remove_from_pool [OF Cons.prems])
qed

lemma releases_remove_each:
  assumes "pool_inv p" "distinct xs" "set xs \<subseteq> set (get_all_connections p)"
  shows "trace (remove_each xs p) = trace p @ replicate (length xs) SemRelease
       \<and> fst (connection_semaphore (remove_each xs p))
           = (release ^^ length xs) (fst (connection_semaphore p))"
  using assms
proof (induction xs arbitrary: p)
  case Nil
  then show ?case by simp
next
  case (Cons x xs)
  let ?q = "remove_from_pool p x"
  have inq: "x \<in> set (bucket p (origin (heap p x)))"
    using Cons.prems by (simp add: pooled_iff [symmetric])
  have q: "pool_inv ?q" by (rule pool_inv_remove_from_pool [OF Cons.prems(1)])
  have sub: "set xs \<subseteq> set (get_all_connections ?q)"
    using Cons.prems by (auto simp add: pooled_remove_from_pool)
  have d: "distinct xs" using Cons.prems by simp
  from Cons.IH [OF q d sub] inq show ?case
    by (simp add: trace_remove_from_pool semaphore_of_remove_from_pool funpow_swap1
        replicate_append_same)
qed

lemma connections_connection_close [simp]:
  "connections (connection_close c p) = connections p"
  by (simp add: connection_close_def)

lemma connections_close_each [simp]:
  "connections (fold connection_close xs p) = connections p"
  by (induction xs arbitrary: p) simp_all

lemma semaphore_connection_close [simp]:
  "internal_semaphore (connection_close c p) = internal_semaphore p"
  "max_connections (connection_close c p) = max_connections p"
  by (simp_all add: connection_close_def)

lemma semaphore_of_connection_close [simp]:
  "fst (connection_semaphore (connection_close c p)) = fst (connection_semaphore p)"
  by (simp add: connection_semaphore_def Let_def split: option.splits)

lemma semaphore_of_close_each [simp]:
  "fst (connection_semaphore (fold connection_close xs p)) = fst (connection_semaphore p)"
  by (induction xs arbitrary: p) simp_all

lemma trace_close_each:
  "trace (fold connection_close xs p) = trace p @ map ConnClose xs"
  by (induction xs arbitrary: p) (simp_all add: connection_close_def)

lemma heap_close_each:
  "heap (fold connection_close xs p) c =
     (if c \<in> set xs then (heap p c)\<lparr>state := CLOSED\<rparr> else heap p c)"
  by (induction xs arbitrary: p) (auto simp add: connection_close_def)

text \<open>
  C6. After \<^verbatim>\<open>close()\<close> on a pool that satisfies the invariant, the connections
  map is empty; the semaphore has been released once for each connection that was pooled
  at the start; each of them has been closed and no other connection object has changed;
  and the calls made are, in this order, all the releases of the removals and then all
  the closes.
\<close>

theorem close_correct:
  fixes p :: "'a SyncConnectionPool_scheme"
  assumes "pool_inv p"
  shows "connections (close p) = []
       \<and> fst (connection_semaphore (close p))
           = (release ^^ length (get_all_connections p)) (fst (connection_semaphore p))
       \<and> trace (close p)
           = trace p @ replicate (length (get_all_connections p)) SemRelease
               @ map ConnClose (get_all_connections p)
       \<and> (\<forall>c \<in> set (get_all_connections p). state (heap (close p) c) = CLOSED)
       \<and> (\<forall>c. c \<notin> set (get_all_connections p) \<longrightarrow> heap (close p) c = heap p c)"
proof -
  let ?cs = "get_all_connections p"
  let ?q = "remove_each ?cs p"
  have c: "close p = fold connection_close ?cs ?q" by (simp add: close_def Let_def)
  have "set (get_all_connections ?q) = {}"
    by (simp add: pooled_remove_each [OF assms])
  with pool_inv_remove_each [OF assms] have "connections ?q = []" by (rule empty_pool)
  then have 1: "connections (close p) = []" by (simp add: c)
  have r: "trace ?q = trace p @ replicate (length ?cs) SemRelease
         \<and> fst (connection_semaphore ?q) = (release ^^ length ?cs) (fst (connection_semaphore p))"
    by (rule releases_remove_each [OF assms]) simp_all
  then have 2: "fst (connection_semaphore (close p))
                  = (release ^^ length ?cs) (fst (connection_semaphore p))"
    by (simp add: c)
  have 3: "trace (close p) = trace p @ replicate (length ?cs) SemRelease @ map ConnClose ?cs"
    using r by (simp add: c trace_close_each)
  have 4: "\<forall>c \<in> set ?cs. state (heap (close p) c) = CLOSED"
    by (simp add: c heap_close_each)
  have 5: "\<forall>c. c \<notin> set ?cs \<longrightarrow> heap (close p) c = heap p c"
    by (simp add: c heap_close_each)
  from 1 2 3 4 5 show ?thesis by blast
qed

theorem close_correct_witness:
  "pool_inv crowded_pool
   \<and> connections (close crowded_pool) = []
   \<and> fst (connection_semaphore (close crowded_pool)) = BackendSemaphore 10
   \<and> trace (close crowded_pool)
       = [SemRelease, SemRelease, SemRelease, ConnClose 2, ConnClose 1, ConnClose 0]"
proof -
  have s: "fst (connection_semaphore crowded_pool) = BackendSemaphore 7"
    by (simp add: connection_semaphore_def crowded_pool_def)
  have t: "trace crowded_pool = []" by (simp add: crowded_pool_def)
  from close_correct [OF crowded_inv] crowded_inv show ?thesis
    by (simp add: crowded_all s t numeral_3_eq_3)
qed

section \<open>Keep-alive sweep\<close>

lemma set_fold_insert: "set (fold List.insert xs acc) = set xs \<union> set acc"
  by (induction xs arbitrary: acc) auto

lemma bucket_remove_each:
  "set (bucket (remove_each xs p) og) =
     set (bucket p og) - {c \<in> set xs. origin (heap p c) = og}"
proof (induction xs arbitrary: p)
  case Nil
  then show ?case by simp
next
  case (Cons x xs)
  show ?case
    by (simp add: Cons.IH bucket_remove_from_pool) blast
qed

lemma pool_inv_bucket:
  assumes "pool_inv p" "c \<in> set (bucket p og)"
  shows "origin (heap p c) = og" and "c \<in> set (get_all_connections p)"
proof -
  from assms(2) obtain b where b: "map_of (connections p) og = Some b" "c \<in> set b"
    by (cases "map_of (connections p) og") (simp_all add: bucket_def)
  with assms(1) show "origin (heap p c) = og"
    unfolding pool_inv_map_of by blast
  with assms show "c \<in> set (get_all_connections p)"
    by (simp add: pooled_iff)
qed

lemma sweep_step_eq:
  "sweep_step now x (tc, p) =
     (if expired now (heap p x) then (List.insert x tc, remove_from_pool p x) else (tc, p))"
  by (cases "expires_at (heap p x)") (simp_all add: sweep_step_def expired_def)

lemma sweep_loop:
  "fold (sweep_step now) xs (tc, p) =
     (fold List.insert (filter (\<lambda>c. expired now (heap p c)) xs) tc,
      remove_each (filter (\<lambda>c. expired now (heap p c)) xs) p)"
proof (induction xs arbitrary: tc p)
  case Nil
  then show ?case by simp
next
  case (Cons x xs)
  show ?case
    by (simp add: sweep_step_eq Cons.IH)
qed

lemma other_fields_remove_each [simp]:
  "next_keepalive_check (remove_each xs p) = next_keepalive_check p"
  by (induction xs arbitrary: p)
     (simp_all add: remove_from_pool_def semaphore_release_def connection_semaphore_def Let_def
        split: option.splits)

lemma next_check_close_each [simp]:
  "next_keepalive_check (fold connection_close xs p) = next_keepalive_check p"
  by (induction xs arbitrary: p) (simp_all add: connection_close_def)

lemma get_all_connections_close_each [simp]:
  "get_all_connections (fold connection_close xs p) = get_all_connections p"
  by (simp add: get_all_connections_def)

lemma bucket_close_each [simp]:
  "bucket (fold connection_close xs p) og = bucket p og"
  by (simp add: bucket_def)

lemma keepalive_sweep_run:
  assumes "keepalive_expiry p = Some e" "\<not> now < next_keepalive_check p"
  defines "p1 \<equiv> p\<lparr>next_keepalive_check := now + min 1 e\<rparr>"
  defines "xs \<equiv> filter (\<lambda>c. expired now (heap p c)) (get_all_connections p)"
  shows "keepalive_sweep p now = fold connection_close (fold List.insert xs []) (remove_each xs p1)"
  using assms(1,2)
  by (simp add: keepalive_sweep_def Let_def sweep_loop p1_def xs_def get_all_connections_def)

text \<open>
  C4. \<^verbatim>\<open>_keepalive_sweep\<close> changes nothing when \<open>keepalive_expiry\<close> is unset or
  when \<open>now\<close> is before \<open>next_keepalive_check\<close>. Otherwise the next check is
  \<open>now + min 1 keepalive_expiry\<close>, and exactly the pooled connections that are IDLE with an
  expiry that is not after \<open>now\<close> leave the pool (in every bucket) and are closed; every
  other connection object is unchanged and is not closed.
\<close>

theorem keepalive_sweep_correct:
  fixes p :: "'a SyncConnectionPool_scheme" and now :: real
  assumes "pool_inv p"
  defines "p' \<equiv> keepalive_sweep p now"
  shows "(keepalive_expiry p = None \<or> now < next_keepalive_check p \<longrightarrow> p' = p)
       \<and> (\<forall>e. keepalive_expiry p = Some e \<and> \<not> now < next_keepalive_check p \<longrightarrow>
             next_keepalive_check p' = now + min 1 e
           \<and> set (get_all_connections p')
               = {c \<in> set (get_all_connections p). \<not> expired now (heap p c)}
           \<and> (\<forall>og. set (bucket p' og) = {c \<in> set (bucket p og). \<not> expired now (heap p c)})
           \<and> (\<forall>c \<in> set (get_all_connections p). expired now (heap p c) \<longrightarrow>
                 heap p' c = (heap p c)\<lparr>state := CLOSED\<rparr> \<and> ConnClose c \<in> set (trace p'))
           \<and> (\<forall>c. \<not> (c \<in> set (get_all_connections p) \<and> expired now (heap p c)) \<longrightarrow>
                 heap p' c = heap p c \<and> ConnClose c \<notin> set (trace p') - set (trace p)))"
proof -
  have A: "p' = p" if "keepalive_expiry p = None \<or> now < next_keepalive_check p"
    using that by (auto simp add: p'_def keepalive_sweep_def split: option.splits)
  have B: "next_keepalive_check p' = now + min 1 e
         \<and> set (get_all_connections p')
             = {c \<in> set (get_all_connections p). \<not> expired now (heap p c)}
         \<and> (\<forall>og. set (bucket p' og) = {c \<in> set (bucket p og). \<not> expired now (heap p c)})
         \<and> (\<forall>c \<in> set (get_all_connections p). expired now (heap p c) \<longrightarrow>
               heap p' c = (heap p c)\<lparr>state := CLOSED\<rparr> \<and> ConnClose c \<in> set (trace p'))
         \<and> (\<forall>c. \<not> (c \<in> set (get_all_connections p) \<and> expired now (heap p c)) \<longrightarrow>
               heap p' c = heap p c \<and> ConnClose c \<notin> set (trace p') - set (trace p))"
    if a: "keepalive_expiry p = Some e \<and> \<not> now < next_keepalive_check p" for e
  proof -
    define p1 where "p1 = p\<lparr>next_keepalive_check := now + min 1 e\<rparr>"
    define xs where "xs = filter (\<lambda>c. expired now (heap p c)) (get_all_connections p)"
    have run: "p' = fold connection_close (fold List.insert xs []) (remove_each xs p1)"
      using a keepalive_sweep_run [of p e now] by (simp add: p'_def p1_def xs_def)
    have inv1: "pool_inv p1" using assms(1) by (simp add: pool_inv_def p1_def)
    have all1: "get_all_connections p1 = get_all_connections p"
      by (simp add: p1_def get_all_connections_def)
    have b1: "\<And>og. bucket p1 og = bucket p og" by (simp add: p1_def bucket_def)
    have h1: "heap p1 = heap p" by (simp add: p1_def)
    have 1: "next_keepalive_check p' = now + min 1 e"
      by (simp add: run p1_def)
    have 2: "set (get_all_connections p')
            = {c \<in> set (get_all_connections p). \<not> expired now (heap p c)}"
      by (auto simp add: run pooled_remove_each [OF inv1] all1 xs_def)
    have 3: "set (bucket p' og) = {c \<in> set (bucket p og). \<not> expired now (heap p c)}" for og
    proof -
      have "set (bucket p' og) = set (bucket p og) - {c \<in> set xs. origin (heap p c) = og}"
        by (simp add: run bucket_remove_each b1 h1)
      also have "\<dots> = {c \<in> set (bucket p og). \<not> expired now (heap p c)}"
        using pool_inv_bucket [OF assms(1), of _ og] by (auto simp add: xs_def)
      finally show ?thesis .
    qed
    have tr: "trace p' = trace (remove_each xs p1) @ map ConnClose (fold List.insert xs [])"
      by (simp add: run trace_close_each)
    have trr: "trace (remove_each xs p1) = trace p @ replicate (length xs) SemRelease"
    proof -
      have "distinct xs" "set xs \<subseteq> set (get_all_connections p1)"
        by (auto simp add: xs_def all1)
      from releases_remove_each [OF inv1 this] show ?thesis by (simp add: p1_def)
    qed
    have 4: "\<forall>c \<in> set (get_all_connections p). expired now (heap p c) \<longrightarrow>
            heap p' c = (heap p c)\<lparr>state := CLOSED\<rparr> \<and> ConnClose c \<in> set (trace p')"
      by (simp add: run heap_close_each set_fold_insert xs_def h1 trace_close_each)
    have 5: "\<forall>c. \<not> (c \<in> set (get_all_connections p) \<and> expired now (heap p c)) \<longrightarrow>
            heap p' c = heap p c \<and> ConnClose c \<notin> set (trace p') - set (trace p)"
    proof (intro allI impI conjI)
      fix c assume n: "\<not> (c \<in> set (get_all_connections p) \<and> expired now (heap p c))"
      then show "heap p' c = heap p c"
        by (auto simp add: run heap_close_each set_fold_insert xs_def h1)
      have "set (trace p') = set (trace p) \<union> set (replicate (length xs) SemRelease)
              \<union> ConnClose ` set xs"
        by (simp add: tr trr set_fold_insert Un_ac)
      moreover have "c \<notin> set xs" using n by (auto simp add: xs_def)
      ultimately show "ConnClose c \<notin> set (trace p') - set (trace p)"
        by auto
    qed
    from 1 2 3 4 5 show ?thesis by blast
  qed
  from A B show ?thesis by blast
qed

theorem keepalive_sweep_correct_witness:
  "pool_inv crowded_pool
   \<and> keepalive_expiry crowded_pool = Some 60 \<and> \<not> 10 < next_keepalive_check crowded_pool
   \<and> next_keepalive_check (keepalive_sweep crowded_pool 10) = 11
   \<and> set (get_all_connections (keepalive_sweep crowded_pool 10)) = {1, 2}
   \<and> state (heap (keepalive_sweep crowded_pool 10) 0) = CLOSED
   \<and> heap (keepalive_sweep crowded_pool 10) 1 = heap crowded_pool 1
   \<and> keepalive_sweep (crowded_pool\<lparr>next_keepalive_check := 20\<rparr>) 10
       = crowded_pool\<lparr>next_keepalive_check := 20\<rparr>"
proof -
  have e: "{c \<in> set [2, 1, 0]. \<not> expired 10 (heap crowded_pool c)} = {1, 2::nat}"
    by (auto simp add: expired_def ex_defs)
  have i2: "pool_inv (crowded_pool\<lparr>next_keepalive_check := 20\<rparr>)"
    using crowded_inv by (simp add: pool_inv_def)
  have k: "keepalive_expiry crowded_pool = Some 60" "next_keepalive_check crowded_pool = 0"
    by (simp_all add: crowded_pool_def)
  have x: "expired 10 (heap crowded_pool 0)" "\<not> expired 10 (heap crowded_pool (Suc 0))"
    "\<not> expired 10 (heap crowded_pool 2)"
    by (simp_all add: expired_def ex_defs)
  from keepalive_sweep_correct [of crowded_pool 10, OF crowded_inv]
    keepalive_sweep_correct [of "crowded_pool\<lparr>next_keepalive_check := 20\<rparr>" 10, OF i2]
    crowded_inv
  show ?thesis
    by (auto simp add: crowded_all k x)
qed

section \<open>Reuse selection: properties\<close>

lemma pick_last_simps [simp]:
  "pick_last P [] d = d"
  "pick_last P (x # xs) d = pick_last P xs (if P x then Some x else d)"
  by (simp_all add: pick_last_def)

lemma pick_last_none: "\<forall>x \<in> set xs. \<not> P x \<Longrightarrow> pick_last P xs d = d"
  by (induction xs arbitrary: d) simp_all

lemma pick_last_some:
  "\<exists>x \<in> set xs. P x \<Longrightarrow> \<exists>y. pick_last P xs d = Some y \<and> y \<in> set xs \<and> P y"
proof (induction xs arbitrary: d)
  case Nil
  then show ?case by simp
next
  case (Cons x xs)
  show ?case
  proof (cases "\<exists>y \<in> set xs. P y")
    case True
    from Cons.IH [OF this] show ?thesis by auto
  next
    case False
    with Cons.prems have "P x" by auto
    with False show ?thesis by (simp add: pick_last_none)
  qed
qed

lemma scan_step_eq:
  "scan_step x (s, p) =
     (let c = heap p x;
          s1 = s\<lparr>seen_http11 := seen_http11 s \<or> is_http11 c\<rparr>
      in if dead c then
           (s1\<lparr>connections_to_close := List.insert x (connections_to_close s)\<rparr>,
            remove_from_pool p x)
         else if reusable c then (s1\<lparr>reuse_connection := Some x\<rparr>, p)
         else if state c = PENDING then (s1\<lparr>pending_connection := Some x\<rparr>, p)
         else (s1, p))"
  by (auto simp add: scan_step_def Let_def dead_def reusable_def)

lemma scan_loop:
  "fold scan_step xs (s, p) =
     (\<lparr>seen_http11 = seen_http11 s \<or> (\<exists>x \<in> set xs. is_http11 (heap p x)),
       pending_connection =
         pick_last (\<lambda>x. state (heap p x) = PENDING) xs (pending_connection s),
       reuse_connection = pick_last (\<lambda>x. reusable (heap p x)) xs (reuse_connection s),
       connections_to_close =
         fold List.insert (filter (\<lambda>x. dead (heap p x)) xs) (connections_to_close s)\<rparr>,
      remove_each (filter (\<lambda>x. dead (heap p x)) xs) p)"
proof (induction xs arbitrary: s p)
  case Nil
  then show ?case by simp
next
  case (Cons x xs)
  have excl: "dead (heap p x) \<Longrightarrow> \<not> reusable (heap p x) \<and> state (heap p x) \<noteq> PENDING"
    "reusable (heap p x) \<Longrightarrow> state (heap p x) \<noteq> PENDING"
    by (auto simp add: dead_def reusable_def)
  show ?case
    using excl by (auto simp add: scan_step_eq Cons.IH Let_def)
qed

lemma http2_remove_each [simp]: "http2 (remove_each xs p) = http2 p"
  by (induction xs arbitrary: p)
     (simp_all add: remove_from_pool_def semaphore_release_def connection_semaphore_def Let_def
        split: option.splits)

lemma get_all_connections_touch [simp]:
  "get_all_connections (set_expires_at p c e) = get_all_connections p"
  "get_all_connections (mark_as_ready p c) = get_all_connections p"
  by (simp_all add: get_all_connections_def set_expires_at_def mark_as_ready_def)

lemma bucket_touch [simp]:
  "bucket (set_expires_at p c e) og = bucket p og"
  "bucket (mark_as_ready p c) og = bucket p og"
  by (simp_all add: bucket_def set_expires_at_def mark_as_ready_def)

text \<open>The call, with the loop replaced by what it computes.\<close>

lemma get_connection_from_pool_run:
  fixes p :: "'a SyncConnectionPool_scheme" and og :: Origin
  defines "xs \<equiv> connections_for_origin p og"
  defines "ds \<equiv> filter (\<lambda>x. dead (heap p x)) xs"
  defines "p1 \<equiv> remove_each ds p"
  shows "get_connection_from_pool p og =
     (case pick_last (\<lambda>x. reusable (heap p x)) xs None of
        Some rc \<Rightarrow>
          (Some rc,
           fold connection_close (fold List.insert ds [])
             (set_expires_at (mark_as_ready p1 rc) rc None))
      | None \<Rightarrow>
          (if http2 p \<and> (\<exists>x \<in> set xs. state (heap p x) = PENDING)
               \<and> \<not> (\<exists>x \<in> set xs. is_http11 (heap p x))
           then pick_last (\<lambda>x. state (heap p x) = PENDING) xs None
           else None,
           fold connection_close (fold List.insert ds []) p1))"
proof -
  have pend: "(pick_last (\<lambda>x. state (heap p x) = PENDING) xs None \<noteq> None)
                = (\<exists>x \<in> set xs. state (heap p x) = PENDING)"
  proof (cases "\<exists>x \<in> set xs. state (heap p x) = PENDING")
    case True
    from pick_last_some [OF this, of None] True show ?thesis by auto
  next
    case False
    then have "pick_last (\<lambda>x. state (heap p x) = PENDING) xs None = None"
      by (intro pick_last_none) simp
    with False show ?thesis by simp
  qed
  have h2: "http2 p1 = http2 p" by (simp add: p1_def)
  show ?thesis
    unfolding get_connection_from_pool_def Let_def scan_loop
    using pend
    by (auto simp add: xs_def [symmetric] ds_def [symmetric] p1_def [symmetric] h2
          split: option.splits)
qed

lemma trace_remove_each: "\<exists>k. trace (remove_each xs p) = trace p @ replicate k SemRelease"
proof (induction xs arbitrary: p)
  case Nil
  show ?case by simp
next
  case (Cons x xs)
  from Cons.IH [of "remove_from_pool p x"] obtain k where
    k: "trace (remove_each xs (remove_from_pool p x))
          = trace (remove_from_pool p x) @ replicate k SemRelease" ..
  show ?case
  proof (cases "x \<in> set (bucket p (origin (heap p x)))")
    case True
    with k have "trace (remove_each (x # xs) p) = trace p @ replicate (Suc k) SemRelease"
      by (simp add: trace_remove_from_pool)
    then show ?thesis ..
  next
    case False
    with k have "trace (remove_each (x # xs) p) = trace p @ replicate k SemRelease"
      by (simp add: trace_remove_from_pool)
    then show ?thesis ..
  qed
qed

lemma heap_touch:
  "heap (set_expires_at (mark_as_ready p rc) rc None) =
     (heap p)(rc := (heap p rc)\<lparr>state := (if state (heap p rc) = IDLE then READY
                                             else state (heap p rc)),
                                  expires_at := None\<rparr>)"
  by (simp add: set_expires_at_def mark_as_ready_def)

lemma trace_touch:
  "trace (set_expires_at (mark_as_ready p rc) rc None) = trace p @ [MarkAsReady rc]"
  by (simp add: set_expires_at_def mark_as_ready_def)

text \<open>
  C3. When the bucket of the origin holds a reuse candidate (IDLE with a socket that is
  not readable, or ACTIVE and HTTP/2), \<^verbatim>\<open>_get_connection_from_pool\<close> returns such a
  candidate, after \<^verbatim>\<open>mark_as_ready()\<close> has been called on it and its expiry has been
  cleared. When there is no candidate, it returns a PENDING connection of the bucket,
  unchanged, if HTTP/2 is enabled, a PENDING connection exists and no HTTP/1.1 connection
  is in the bucket, and \<open>None\<close> otherwise; \<^verbatim>\<open>mark_as_ready()\<close> is then not called.
\<close>

theorem get_connection_from_pool_selection:
  fixes p :: "'a SyncConnectionPool_scheme" and og :: Origin
  defines "xs \<equiv> connections_for_origin p og"
  defines "r \<equiv> fst (get_connection_from_pool p og)"
  defines "p' \<equiv> snd (get_connection_from_pool p og)"
  shows
    "((\<exists>c \<in> set xs. reusable (heap p c)) \<longrightarrow>
        (\<exists>rc k cl. r = Some rc \<and> rc \<in> set xs \<and> reusable (heap p rc)
           \<and> heap p' rc =
               (heap p rc)\<lparr>state := (if state (heap p rc) = IDLE then READY
                                       else state (heap p rc)),
                            expires_at := None\<rparr>
           \<and> trace p' =
               trace p @ replicate k SemRelease @ [MarkAsReady rc] @ map ConnClose cl))
   \<and> ((\<forall>c \<in> set xs. \<not> reusable (heap p c)) \<longrightarrow>
        (if http2 p \<and> (\<exists>c \<in> set xs. state (heap p c) = PENDING)
              \<and> (\<forall>c \<in> set xs. \<not> is_http11 (heap p c))
         then \<exists>q. r = Some q \<and> q \<in> set xs \<and> state (heap p q) = PENDING
                  \<and> heap p' q = heap p q
         else r = None)
        \<and> (\<exists>k cl. trace p' = trace p @ replicate k SemRelease @ map ConnClose cl))"
proof -
  define ds where "ds = filter (\<lambda>x. dead (heap p x)) xs"
  define p1 where "p1 = remove_each ds p"
  obtain k where k: "trace p1 = trace p @ replicate k SemRelease"
    using trace_remove_each [of ds p] by (auto simp add: p1_def)
  have h1: "heap p1 = heap p" by (simp add: p1_def)
  note run = get_connection_from_pool_run [of p og, folded xs_def, folded ds_def, folded p1_def]
  have A: "\<exists>rc k cl. r = Some rc \<and> rc \<in> set xs \<and> reusable (heap p rc)
           \<and> heap p' rc =
               (heap p rc)\<lparr>state := (if state (heap p rc) = IDLE then READY
                                       else state (heap p rc)),
                            expires_at := None\<rparr>
           \<and> trace p' =
               trace p @ replicate k SemRelease @ [MarkAsReady rc] @ map ConnClose cl"
    if "\<exists>c \<in> set xs. reusable (heap p c)"
  proof -
    from pick_last_some [OF that, of None] obtain rc where
      rc: "pick_last (\<lambda>x. reusable (heap p x)) xs None = Some rc" "rc \<in> set xs"
          "reusable (heap p rc)" by blast
    have nd: "rc \<notin> set (fold List.insert ds [])"
      using rc(3) by (auto simp add: set_fold_insert ds_def dead_def reusable_def)
    have "r = Some rc" by (simp add: r_def run rc)
    moreover have "heap p' rc =
               (heap p rc)\<lparr>state := (if state (heap p rc) = IDLE then READY
                                       else state (heap p rc)),
                            expires_at := None\<rparr>"
      using nd by (simp add: p'_def run rc heap_close_each heap_touch h1)
    moreover have "trace p' = trace p @ replicate k SemRelease @ [MarkAsReady rc]
                     @ map ConnClose (fold List.insert ds [])"
      by (simp add: p'_def run rc trace_close_each trace_touch k)
    ultimately show ?thesis using rc by blast
  qed
  have B: "(if http2 p \<and> (\<exists>c \<in> set xs. state (heap p c) = PENDING)
              \<and> (\<forall>c \<in> set xs. \<not> is_http11 (heap p c))
         then \<exists>q. r = Some q \<and> q \<in> set xs \<and> state (heap p q) = PENDING
                  \<and> heap p' q = heap p q
         else r = None)
        \<and> (\<exists>k cl. trace p' = trace p @ replicate k SemRelease @ map ConnClose cl)"
    if "\<forall>c \<in> set xs. \<not> reusable (heap p c)"
  proof -
    have none: "pick_last (\<lambda>x. reusable (heap p x)) xs None = None"
      using that by (intro pick_last_none) simp
    have tr: "trace p' = trace p @ replicate k SemRelease @ map ConnClose (fold List.insert ds [])"
      by (simp add: p'_def run none trace_close_each k)
    have p'h: "\<And>q. q \<notin> set ds \<Longrightarrow> heap p' q = heap p q"
      by (simp add: p'_def run none heap_close_each set_fold_insert h1)
    show ?thesis
    proof (cases "http2 p \<and> (\<exists>c \<in> set xs. state (heap p c) = PENDING)
              \<and> (\<forall>c \<in> set xs. \<not> is_http11 (heap p c))")
      case True
      then have "\<exists>x \<in> set xs. state (heap p x) = PENDING" by simp
      from pick_last_some [OF this, of None] obtain q where
        q: "pick_last (\<lambda>x. state (heap p x) = PENDING) xs None = Some q" "q \<in> set xs"
           "state (heap p q) = PENDING" by blast
      have "q \<notin> set ds" using q(3) by (simp add: ds_def dead_def)
      then have "heap p' q = heap p q" by (rule p'h)
      moreover have "r = Some q" using True by (simp add: r_def run none q)
      ultimately show ?thesis using True q tr by auto
    next
      case False
      then have "r = None" by (auto simp add: r_def run none)
      with False tr show ?thesis by auto
    qed
  qed
  from A B show ?thesis by blast
qed

theorem get_connection_from_pool_selection_witness:
  "connections_for_origin crowded_pool example_origin = [0, Suc 0]
   \<and> reusable (heap crowded_pool 0)
   \<and> fst (get_connection_from_pool crowded_pool example_origin) = Some 0
   \<and> state (heap (snd (get_connection_from_pool crowded_pool example_origin)) 0) = READY
   \<and> expires_at (heap (snd (get_connection_from_pool crowded_pool example_origin)) 0) = None
   \<and> connections_for_origin crowded_pool other_origin = [2]
   \<and> \<not> reusable (heap crowded_pool 2)
   \<and> http2 crowded_pool
   \<and> fst (get_connection_from_pool crowded_pool other_origin) = Some 2
   \<and> heap (snd (get_connection_from_pool crowded_pool other_origin)) 2 = heap crowded_pool 2"
proof -
  have a: "connections_for_origin crowded_pool example_origin = [0, Suc 0]"
    "connections_for_origin crowded_pool other_origin = [2]"
    by (simp_all add: connections_for_origin_def bucket_def ex_defs)
  have r: "reusable (heap crowded_pool 0)" "\<not> reusable (heap crowded_pool (Suc 0))"
    "\<not> reusable (heap crowded_pool 2)"
    by (simp_all add: reusable_def ex_defs)
  have s: "state (heap crowded_pool 0) = IDLE" "state (heap crowded_pool 2) = PENDING"
    "\<not> is_http11 (heap crowded_pool 2)" "http2 crowded_pool"
    by (simp_all add: ex_defs)
  have c1: "\<exists>c \<in> set (connections_for_origin crowded_pool example_origin).
       reusable (heap crowded_pool c)"
    by (simp add: a r)
  have c2: "\<forall>c \<in> set (connections_for_origin crowded_pool other_origin).
         \<not> reusable (heap crowded_pool c)"
    by (simp add: a r)
  from get_connection_from_pool_selection [of crowded_pool example_origin] c1
  obtain rc where rc: "fst (get_connection_from_pool crowded_pool example_origin) = Some rc"
    "rc \<in> set (connections_for_origin crowded_pool example_origin)"
    "reusable (heap crowded_pool rc)"
    "heap (snd (get_connection_from_pool crowded_pool example_origin)) rc =
       (heap crowded_pool rc)\<lparr>state := (if state (heap crowded_pool rc) = IDLE then READY
                                       else state (heap crowded_pool rc)),
                            expires_at := None\<rparr>"
    by blast
  from rc(2,3) have rc0: "rc = 0" using r by (auto simp add: a)
  from get_connection_from_pool_selection [of crowded_pool other_origin] c2
  have "\<exists>q. fst (get_connection_from_pool crowded_pool other_origin) = Some q
           \<and> q \<in> set (connections_for_origin crowded_pool other_origin)
           \<and> state (heap crowded_pool q) = PENDING
           \<and> heap (snd (get_connection_from_pool crowded_pool other_origin)) q
               = heap crowded_pool q"
    by (simp add: a s)
  then have q: "fst (get_connection_from_pool crowded_pool other_origin) = Some 2"
    "heap (snd (get_connection_from_pool crowded_pool other_origin)) 2 = heap crowded_pool 2"
    by (auto simp add: a)
  from rc rc0 q a r show ?thesis by (simp add: s)
qed

text \<open>
  C5. In a pool that satisfies the invariant, a connection of the origin's bucket that is
  IDLE with a readable socket when \<^verbatim>\<open>_get_connection_from_pool\<close> starts is, after
  the call, out of the pool and closed, and is not the connection returned.
\<close>

theorem dead_connection_evicted:
  fixes p :: "'a SyncConnectionPool_scheme" and og :: Origin
  defines "r \<equiv> fst (get_connection_from_pool p og)"
  defines "p' \<equiv> snd (get_connection_from_pool p og)"
  assumes "pool_inv p"
    and "c \<in> set (connections_for_origin p og)"
    and "state (heap p c) = IDLE" and "is_socket_readable (heap p c)"
  shows "c \<notin> set (get_all_connections p')
       \<and> c \<notin> set (bucket p' og)
       \<and> heap p' c = (heap p c)\<lparr>state := CLOSED\<rparr>
       \<and> ConnClose c \<in> set (trace p')
       \<and> r \<noteq> Some c"
proof -
  define xs where "xs = connections_for_origin p og"
  define ds where "ds = filter (\<lambda>x. dead (heap p x)) xs"
  define p1 where "p1 = remove_each ds p"
  have h1: "heap p1 = heap p" by (simp add: p1_def)
  note run = get_connection_from_pool_run [of p og, folded xs_def, folded ds_def, folded p1_def]
  have cd: "c \<in> set ds" using assms by (simp add: ds_def xs_def dead_def)
  have nr: "\<not> reusable (heap p c)" using assms by (simp add: reusable_def)
  have np: "state (heap p c) \<noteq> PENDING" using assms by simp
  have "c \<notin> set (get_all_connections p1)"
    using cd by (simp add: p1_def pooled_remove_each [OF assms(3)])
  then have 1: "c \<notin> set (get_all_connections p')"
    by (simp add: p'_def run split: option.splits)
  have "c \<notin> set (bucket p1 og)"
    using cd pool_inv_bucket(1) [OF assms(3), of c og] assms(4)
    by (simp add: p1_def bucket_remove_each connections_for_origin_def)
  then have 2: "c \<notin> set (bucket p' og)"
    by (simp add: p'_def run split: option.splits)
  have 5: "r \<noteq> Some c"
  proof
    assume rc: "r = Some c"
    show False
    proof (cases "\<exists>x \<in> set xs. reusable (heap p x)")
      case True
      from pick_last_some [OF this, of None] obtain y where
        "pick_last (\<lambda>x. reusable (heap p x)) xs None = Some y" "reusable (heap p y)" by blast
      with rc nr show False by (auto simp add: r_def run)
    next
      case False
      then have none: "pick_last (\<lambda>x. reusable (heap p x)) xs None = None"
        by (intro pick_last_none) simp
      show False
      proof (cases "\<exists>x \<in> set xs. state (heap p x) = PENDING")
        case True
        from pick_last_some [OF this, of None] obtain y where
          "pick_last (\<lambda>x. state (heap p x) = PENDING) xs None = Some y"
          "state (heap p y) = PENDING" by blast
        with rc np none show False by (auto simp add: r_def run split: if_splits)
      next
        case False
        with rc none show False by (auto simp add: r_def run split: if_splits)
      qed
    qed
  qed
  have 3: "heap p' c = (heap p c)\<lparr>state := CLOSED\<rparr>"
  proof (cases "pick_last (\<lambda>x. reusable (heap p x)) xs None")
    case None
    then show ?thesis using cd by (simp add: p'_def run heap_close_each set_fold_insert h1)
  next
    case (Some y)
    with 5 have "y \<noteq> c" by (auto simp add: r_def run)
    with Some show ?thesis using cd
      by (simp add: p'_def run heap_close_each set_fold_insert heap_touch h1)
  qed
  have 4: "ConnClose c \<in> set (trace p')"
    using cd by (simp add: p'_def run trace_close_each set_fold_insert split: option.splits)
  from 1 2 3 4 5 show ?thesis by blast
qed

theorem dead_connection_evicted_witness:
  "pool_inv crowded_pool
   \<and> 1 \<in> set (connections_for_origin crowded_pool example_origin)
   \<and> state (heap crowded_pool 1) = IDLE \<and> is_socket_readable (heap crowded_pool 1)
   \<and> 1 \<notin> set (get_all_connections (snd (get_connection_from_pool crowded_pool example_origin)))
   \<and> state (heap (snd (get_connection_from_pool crowded_pool example_origin)) 1) = CLOSED
   \<and> fst (get_connection_from_pool crowded_pool example_origin) \<noteq> Some 1"
proof -
  have a: "1 \<in> set (connections_for_origin crowded_pool example_origin)"
    by (simp add: connections_for_origin_def bucket_def ex_defs)
  have s: "state (heap crowded_pool 1) = IDLE" "is_socket_readable (heap crowded_pool 1)"
    by (simp_all add: ex_defs)
  from dead_connection_evicted [OF crowded_inv a s] crowded_inv a s
  show ?thesis by simp
qed

section \<open>Response closed\<close>

lemma connections_set_expires_at [simp]:
  "connections (set_expires_at p c e) = connections p"
  by (simp add: set_expires_at_def)

lemma response_closed_cases:
  "response_closed p now c =
     (if state (heap p c) = CLOSED then remove_from_pool p c
      else if state (heap p c) = IDLE then
        (if (\<exists>m. max_keepalive_connections p = Some m
                  \<and> int (length (get_all_connections p)) > m)
         then connection_close c (remove_from_pool p c)
         else (case keepalive_expiry p of
                 Some e \<Rightarrow> set_expires_at p c (Some (now + e))
               | None \<Rightarrow> p))
      else p)"
  by (simp add: response_closed_def Let_def split: option.splits)

text \<open>
  C2. \<^verbatim>\<open>_response_closed(c)\<close> in a pool that satisfies the invariant: a CLOSED
  connection is removed from the pool; an IDLE connection is removed and closed when
  \<open>max_keepalive_connections\<close> is set and the number of pooled connections, whatever their
  states, is strictly greater; otherwise an IDLE connection gets the expiry
  \<open>now + keepalive_expiry\<close> when that is set, and the pool's map does not change.
\<close>

theorem response_closed_correct:
  fixes p :: "'a SyncConnectionPool_scheme" and now :: real and c :: handle
  defines "p' \<equiv> response_closed p now c"
  defines "n \<equiv> int (card (set (get_all_connections p)))"
  assumes "pool_inv p"
  shows
    "(state (heap p c) = CLOSED \<longrightarrow>
        p' = remove_from_pool p c
      \<and> set (get_all_connections p') = set (get_all_connections p) - {c})
   \<and> (\<forall>m. state (heap p c) = IDLE \<and> max_keepalive_connections p = Some m \<and> n > m \<longrightarrow>
        set (get_all_connections p') = set (get_all_connections p) - {c}
      \<and> heap p' = (heap p)(c := (heap p c)\<lparr>state := CLOSED\<rparr>)
      \<and> ConnClose c \<in> set (trace p'))
   \<and> (\<forall>e. state (heap p c) = IDLE
          \<and> \<not> (\<exists>m. max_keepalive_connections p = Some m \<and> n > m)
          \<and> keepalive_expiry p = Some e \<longrightarrow>
        expires_at (heap p' c) = Some (now + e)
      \<and> connections p' = connections p
      \<and> p' = set_expires_at p c (Some (now + e)))"
proof -
  have n: "n = int (length (get_all_connections p))"
    by (simp add: n_def distinct_card)
  have 1: "p' = remove_from_pool p c
      \<and> set (get_all_connections p') = set (get_all_connections p) - {c}"
    if "state (heap p c) = CLOSED"
    using that by (simp add: p'_def response_closed_cases pooled_remove_from_pool [OF assms(3)])
  have 2: "set (get_all_connections p') = set (get_all_connections p) - {c}
      \<and> heap p' = (heap p)(c := (heap p c)\<lparr>state := CLOSED\<rparr>)
      \<and> ConnClose c \<in> set (trace p')"
    if "state (heap p c) = IDLE \<and> max_keepalive_connections p = Some m \<and> n > m" for m
  proof -
    from that have "p' = connection_close c (remove_from_pool p c)"
      by (simp add: p'_def response_closed_cases n)
    then show ?thesis
      by (simp add: connection_close_def get_all_connections_def
            pooled_remove_from_pool [OF assms(3), unfolded get_all_connections_def])
  qed
  have 3: "expires_at (heap p' c) = Some (now + e)
      \<and> connections p' = connections p
      \<and> p' = set_expires_at p c (Some (now + e))"
    if "state (heap p c) = IDLE
          \<and> \<not> (\<exists>m. max_keepalive_connections p = Some m \<and> n > m)
          \<and> keepalive_expiry p = Some e" for e
  proof -
    from that have "p' = set_expires_at p c (Some (now + e))"
      by (auto simp add: p'_def response_closed_cases n)
    then show ?thesis by (simp add: set_expires_at_def)
  qed
  from 1 2 3 show ?thesis by blast
qed

theorem response_closed_correct_witness:
  "pool_inv closed_pool \<and> state (heap closed_pool 0) = CLOSED
   \<and> set (get_all_connections (response_closed closed_pool 7 0)) = {}
   \<and> pool_inv crowded_pool \<and> state (heap crowded_pool 0) = IDLE
   \<and> max_keepalive_connections crowded_pool = Some 2
   \<and> int (card (set (get_all_connections crowded_pool))) > 2
   \<and> set (get_all_connections (response_closed crowded_pool 7 0)) = {1, 2}
   \<and> state (heap (response_closed crowded_pool 7 0) 0) = CLOSED
   \<and> pool_inv example_pool \<and> state (heap example_pool 0) = IDLE
   \<and> max_keepalive_connections example_pool = None
   \<and> keepalive_expiry example_pool = Some 60
   \<and> expires_at (heap (response_closed example_pool 7 0) 0) = Some 67
   \<and> connections (response_closed example_pool 7 0) = connections example_pool"
proof -
  have s: "state (heap closed_pool 0) = CLOSED" "state (heap crowded_pool 0) = IDLE"
    "state (heap example_pool 0) = IDLE"
    "max_keepalive_connections crowded_pool = Some 2"
    "max_keepalive_connections example_pool = None"
    "keepalive_expiry example_pool = Some 60"
    by (simp_all add: closed_pool_def ex_defs)
  have n: "int (card (set (get_all_connections crowded_pool))) > 2"
    by (simp add: crowded_all card_insert_if)
  note t1 = response_closed_correct [OF closed_inv, where c = 0 and now = 7,
      THEN conjunct1, THEN mp, OF s(1), THEN conjunct2]
  have 1: "set (get_all_connections (response_closed closed_pool 7 0)) = {}"
    using t1 by (simp add: closed_all)
  have h2: "state (heap crowded_pool 0) = IDLE
      \<and> max_keepalive_connections crowded_pool = Some 2
      \<and> int (card (set (get_all_connections crowded_pool))) > 2"
    using s n by simp
  note t2 = response_closed_correct [OF crowded_inv, where c = 0 and now = 7,
      THEN conjunct2, THEN conjunct1, THEN spec, where x = 2, THEN mp, OF h2]
  have 2: "set (get_all_connections (response_closed crowded_pool 7 0)) = {1, 2}"
  proof -
    have "set (get_all_connections crowded_pool) - {0} = {1, 2}"
      unfolding crowded_all by (simp add: insert_Diff_if insert_commute)
    with t2 [THEN conjunct1] show ?thesis by (rule trans)
  qed
  have w2: "state (heap (response_closed crowded_pool 7 0) 0) = CLOSED"
    using t2 [THEN conjunct2, THEN conjunct1] by simp
  have h3: "state (heap example_pool 0) = IDLE
      \<and> \<not> (\<exists>m. max_keepalive_connections example_pool = Some m
              \<and> int (card (set (get_all_connections example_pool))) > m)
      \<and> keepalive_expiry example_pool = Some 60"
    using s by simp
  note t3 = response_closed_correct [OF example_inv, where c = 0 and now = 7,
      THEN conjunct2, THEN conjunct2, THEN spec, where x = 60, THEN mp, OF h3]
  have 3: "expires_at (heap (response_closed example_pool 7 0) 0) = Some 67"
    using t3 [THEN conjunct1] by simp
  have w3: "connections (response_closed example_pool 7 0) = connections example_pool"
    using t3 [THEN conjunct2, THEN conjunct1] .
  from 1 2 w2 3 w3 n closed_inv crowded_inv example_inv s show ?thesis
    by simp
qed

section \<open>The invariant is kept\<close>

text \<open>
  The invariant holds of a new pool, whose map is empty, and the bookkeeping of the pool
  keeps it: adding, removing, reuse selection, the response-closed callback, the sweep and
  the shutdown, as do \<^verbatim>\<open>mark_as_ready()\<close>, \<^verbatim>\<open>close()\<close> and any change of
  the connection objects that leaves their origins alone. A new connection object keeps
  it as long as its handle is not pooled yet.
\<close>

lemma pool_inv_initial: "connections p = [] \<Longrightarrow> pool_inv p"
  by (simp add: pool_inv_def)

lemma pool_inv_heap_update:
  assumes "pool_inv p" "\<And>c. origin (h c) = origin (heap p c)"
  shows "pool_inv (p\<lparr>heap := h\<rparr>)"
  using assms by (simp add: pool_inv_def)

lemma pool_inv_connection_close: "pool_inv p \<Longrightarrow> pool_inv (connection_close c p)"
  by (simp add: pool_inv_def connection_close_def)

lemma pool_inv_close_each: "pool_inv p \<Longrightarrow> pool_inv (fold connection_close xs p)"
  by (induction xs arbitrary: p) (simp_all add: pool_inv_connection_close)

lemma pool_inv_mark_as_ready: "pool_inv p \<Longrightarrow> pool_inv (mark_as_ready p c)"
  by (simp add: pool_inv_def mark_as_ready_def)

lemma pool_inv_set_expires_at: "pool_inv p \<Longrightarrow> pool_inv (set_expires_at p c e)"
  by (simp add: pool_inv_def set_expires_at_def)

lemma pool_inv_new_connection:
  assumes "pool_inv p" "fresh p \<notin> set (get_all_connections p)"
  shows "pool_inv (snd (new_connection p og sock))"
proof -
  have "\<And>x c. x \<in> set (connections p) \<Longrightarrow> c \<in> set (snd x) \<Longrightarrow> c \<noteq> fresh p"
    using assms(2) by (auto simp add: set_get_all_connections)
  with assms(1) show ?thesis
    by (auto simp add: pool_inv_def new_connection_def)
qed

lemma add_to_pool_returns:
  assumes "add_to_pool p c timeout = Some (Inr u, p')"
  shows "connections p' =
           AList.update (origin (heap p c)) (List.insert c (bucket p (origin (heap p c))))
             (connections p)"
    and "heap p' = heap p"
  using assms
  by (auto simp add: add_to_pool_def connection_semaphore_def Let_def bucket_def
      split: option.splits acquired.splits)

lemma add_to_pool_raises:
  assumes "add_to_pool p c timeout = Some (Inl e, p')"
  shows "connections p' = connections p" and "heap p' = heap p"
  using assms
  by (auto simp add: add_to_pool_def connection_semaphore_def Let_def
      split: option.splits acquired.splits)

lemma pool_inv_add_to_pool:
  assumes "pool_inv p" "add_to_pool p c timeout = Some (r, p')"
  shows "pool_inv p'"
proof (cases r)
  case (Inl e)
  with assms(2) have "connections p' = connections p" "heap p' = heap p"
    by (auto dest: add_to_pool_raises)
  with assms(1) show ?thesis by (simp add: pool_inv_def)
next
  case (Inr u)
  define og where "og = origin (heap p c)"
  from assms(2) Inr have p': "connections p' =
      AList.update og (List.insert c (bucket p og)) (connections p)"
    and q: "heap p' = heap p"
    unfolding og_def by (auto dest: add_to_pool_returns)
  have d: "distinct (map fst (connections p'))"
    using assms(1) by (simp add: p' pool_inv_def distinct_update)
  from assms(1) have inv: "\<And>k b. map_of (connections p) k = Some b \<Longrightarrow>
      b \<noteq> [] \<and> (\<forall>x \<in> set b. origin (heap p x) = k)"
    unfolding pool_inv_map_of by blast
  show ?thesis
    unfolding pool_inv_map_of
  proof (intro conjI allI impI)
    show "distinct (map fst (connections p'))" by (rule d)
  next
    fix k b assume m: "map_of (connections p') k = Some b"
    show "b \<noteq> []"
    proof (cases "k = og")
      case True
      with m have "b = List.insert c (bucket p og)" by (simp add: p' update_conv')
      then have "c \<in> set b" by simp
      then show ?thesis by auto
    next
      case False
      with m have "map_of (connections p) k = Some b" by (simp add: p' update_conv')
      from inv [OF this] show ?thesis by simp
    qed
    show "\<forall>x \<in> set b. origin (heap p' x) = k"
    proof (cases "k = og")
      case True
      with m have bb: "b = List.insert c (bucket p og)" by (simp add: p' update_conv')
      have "\<forall>x \<in> set (bucket p og). origin (heap p x) = og"
        using inv [of og] by (cases "map_of (connections p) og") (simp_all add: bucket_def)
      then show ?thesis using True by (auto simp add: bb q og_def)
    next
      case False
      with m have "map_of (connections p) k = Some b" by (simp add: p' update_conv')
      from inv [OF this] show ?thesis by (simp add: q)
    qed
  qed
qed

lemma pool_inv_get_connection_from_pool:
  assumes "pool_inv p"
  shows "pool_inv (snd (get_connection_from_pool p og))"
  unfolding get_connection_from_pool_run
  by (simp add: pool_inv_close_each pool_inv_set_expires_at pool_inv_mark_as_ready
      pool_inv_remove_each assms split: option.splits)

lemma pool_inv_response_closed:
  assumes "pool_inv p"
  shows "pool_inv (response_closed p now c)"
  unfolding response_closed_cases
  by (simp add: pool_inv_connection_close pool_inv_set_expires_at pool_inv_remove_from_pool
      assms split: option.splits)

lemma pool_inv_keepalive_sweep:
  assumes "pool_inv p"
  shows "pool_inv (keepalive_sweep p now)"
proof (cases "keepalive_expiry p")
  case None
  with assms show ?thesis by (simp add: keepalive_sweep_def)
next
  case (Some e)
  show ?thesis
  proof (cases "now < next_keepalive_check p")
    case True
    with Some assms show ?thesis by (simp add: keepalive_sweep_def)
  next
    case False
    have "pool_inv (p\<lparr>next_keepalive_check := now + min 1 e\<rparr>)"
      using assms by (simp add: pool_inv_def)
    then show ?thesis
      unfolding keepalive_sweep_run [OF Some False]
      by (intro pool_inv_close_each pool_inv_remove_each)
  qed
qed

lemma pool_inv_close: "pool_inv p \<Longrightarrow> pool_inv (close p)"
  by (simp add: close_def Let_def pool_inv_close_each pool_inv_remove_each)

text \<open>
  The two loops of \<^verbatim>\<open>close\<close> run over a set; whatever the order \<open>cs\<close> in which
  Python iterates it, the map ends empty, every release precedes every close, and exactly
  the connections of \<open>cs\<close> are closed.
\<close>

lemma close_any_order:
  fixes p :: "'a SyncConnectionPool_scheme"
  assumes "pool_inv p" "distinct cs" "set cs = set (get_all_connections p)"
  defines "p' \<equiv> fold connection_close cs (remove_each cs p)"
  shows "connections p' = []"
    and "trace p' = trace p @ replicate (length cs) SemRelease @ map ConnClose cs"
    and "heap p' c = (if c \<in> set cs then (heap p c)\<lparr>state := CLOSED\<rparr> else heap p c)"
proof -
  have "set (get_all_connections (remove_each cs p)) = {}"
    by (simp add: pooled_remove_each [OF assms(1)] assms(3))
  with pool_inv_remove_each [OF assms(1)] have "connections (remove_each cs p) = []"
    by (rule empty_pool)
  then show "connections p' = []" by (simp add: p'_def)
  from releases_remove_each [OF assms(1,2)] assms(3)
  show "trace p' = trace p @ replicate (length cs) SemRelease @ map ConnClose cs"
    by (simp add: p'_def trace_close_each)
  show "heap p' c = (if c \<in> set cs then (heap p c)\<lparr>state := CLOSED\<rparr> else heap p c)"
    by (simp add: p'_def heap_close_each)
qed

text \<open>
  Likewise for the loop of \<^verbatim>\<open>_keepalive_sweep\<close>: in any order \<open>cs\<close> it removes the
  expired connections of \<open>cs\<close> and collects them for closing.
\<close>

lemma sweep_any_order:
  "snd (fold (sweep_step now) cs ([], p)) =
     remove_each (filter (\<lambda>c. expired now (heap p c)) cs) p
   \<and> set (fst (fold (sweep_step now) cs ([], p))) = {c \<in> set cs. expired now (heap p c)}"
  by (simp add: sweep_loop set_fold_insert)

section \<open>Proxy: header merge\<close>

text \<open>
  C9. \<^verbatim>\<open>merge_headers\<close> returns the default entries whose key, compared without
  regard to case, is not a key of the override list, in their order, followed by all
  override entries in their order; an absent list counts as empty.
\<close>

theorem merge_headers_correct:
  "merge_headers default_headers override_headers =
     merge_headers_spec (headers_or_empty default_headers) (headers_or_empty override_headers)"
proof -
  have "filter (\<lambda>(key, value). lower key \<notin> set (map (\<lambda>(key, value). lower key) ov)) d
          = filter (\<lambda>d. \<not> (\<exists>ov \<in> set ov. ci_equal (fst d) (fst ov))) d" for d ov :: Headers
    by (rule filter_cong) (auto simp add: ci_equal_def)
  then show ?thesis
    by (simp only: merge_headers_def merge_headers_spec_def headers_or_empty_def Let_def)
qed

lemma lower_examples:
  "lower ''HOST'' = ''host''" "lower ''Host'' = ''host''" "lower ''Accept'' = ''accept''"
  by code_simp+

theorem merge_headers_correct_witness:
  "merge_headers (Some [(''Host'', ''a.test:80''), (''Accept'', ''*/*'')])
       (Some [(''HOST'', ''proxy'')])
     = [(''Accept'', ''*/*''), (''HOST'', ''proxy'')]
   \<and> merge_headers None (Some [(''HOST'', ''proxy'')]) = [(''HOST'', ''proxy'')]"
  using merge_headers_correct [of "Some [(''Host'', ''a.test:80''), (''Accept'', ''*/*'')]"
      "Some [(''HOST'', ''proxy'')]"]
    merge_headers_correct [of None "Some [(''HOST'', ''proxy'')]"]
  by (simp add: merge_headers_spec_def headers_or_empty_def ci_equal_def lower_examples)

section \<open>Pool request: validation\<close>

text \<open>
  C8 (amended). A scheme other than http and https makes \<^verbatim>\<open>request\<close> raise
  \<open>UnsupportedProtocol\<close>; with a scheme of http or https, an empty host makes it raise
  \<open>LocalProtocolError\<close>. In both cases the state returned is the state given: no
  connection was created, the semaphore was not touched, the map did not change.
\<close>

theorem request_validation:
  "(scheme \<notin> {''http'', ''https''} \<longrightarrow>
      request E p now method (scheme, host, port, path) headers stream ext
        = Some (Inl (UnsupportedProtocol scheme), p))
   \<and> (scheme \<in> {''http'', ''https''} \<and> host = [] \<longrightarrow>
      request E p now method (scheme, host, port, path) headers stream ext
        = Some (Inl (LocalProtocolError ''Missing hostname in URL.''), p))"
  by (simp add: request_def)

theorem request_validation_witness:
  "''ftp'' \<notin> {''http'', ''https''}
   \<and> request example_collaborators example_pool 0 ''GET'' (''ftp'', ''a.test'', None, ''/'')
         None None None
       = Some (Inl (UnsupportedProtocol ''ftp''), example_pool)
   \<and> ''http'' \<in> {''http'', ''https''}
   \<and> request example_collaborators example_pool 0 ''GET'' (''http'', [], None, ''/'')
         None None None
       = Some (Inl (LocalProtocolError ''Missing hostname in URL.''), example_pool)"
  using request_validation [of "''ftp''" example_collaborators example_pool 0 "''GET''"
      "''a.test''" None "''/''" None None None]
    request_validation [of "''http''" example_collaborators example_pool 0 "''GET''"
      "[]" None "''/''" None None None]
  by simp

text \<open>
  The claim as written fails where the scheme is unsupported and the host is empty too:
  the scheme is checked first, and \<open>UnsupportedProtocol\<close> is raised.
\<close>

theorem request_empty_host_counterexample:
  "fst (snd (''ftp'', [] :: bytes, None :: int option, ''/'')) = []
   \<and> request example_collaborators example_pool 0 ''GET'' (''ftp'', [], None, ''/'')
         None None None
       = Some (Inl (UnsupportedProtocol ''ftp''), example_pool)
   \<and> request example_collaborators example_pool 0 ''GET'' (''ftp'', [], None, ''/'')
         None None None
       \<noteq> Some (Inl (LocalProtocolError ''Missing hostname in URL.''), example_pool)"
  by (simp add: request_def)

section \<open>Proxy: tunnel handshake\<close>

lemma add_to_pool_error:
  "add_to_pool p c timeout = Some (Inl e, p') \<Longrightarrow> e = PoolTimeout"
  by (auto simp add: add_to_pool_def Let_def split: prod.splits acquired.splits)

lemma send_request_error:
  "send_request E p c method url headers stream ext = Some (Inl e, p') \<Longrightarrow>
     \<exists>x. e = Collaborator x"
  by (auto simp add: send_request_def Let_def split: prod.splits sum.splits)

text \<open>What the \<^verbatim>\<open>except\<close> clause does with an exception of the handshake.\<close>

lemma tunnel_connect_raised:
  assumes "connect_handshake E (snd (new_connection p (proxy_origin p) None)) (fresh p)
             (scheme, host, port)
             (origin_with_target (proxy_origin p) (host @ '':'' @ dec_int port))
             (merge_headers (Some [(''Host'', host @ '':'' @ dec_int port), (''Accept'', ''*/*'')])
                (Some (proxy_headers p)))
             timeout ext = (Some exc, p2)"
  shows "tunnel_connect E p (scheme, host, port) timeout ext =
           Some (Inl (ProxyError (Cause exc)), connection_close (fresh p) p2)"
  using assms by (simp add: tunnel_connect_def new_connection_def Let_def)

lemma connections_connect_handshake [simp]:
  "connections (snd (connect_handshake E p c og u hs timeout ext)) = connections p"
  by (simp add: connect_handshake_def Let_def split: prod.splits sum.splits option.splits)

lemma connect_handshake_cases:
  fixes p :: "'a SyncConnectionPool_scheme" and E :: collaborators and c :: handle
    and u :: URL and hs :: Headers and ext :: ext and timeout :: TimeoutDict
    and scheme host :: bytes and port :: int
  defines "creq \<equiv> connection_request E c ''CONNECT'' u (Some hs) None ext (heap p)"
  defines "H \<equiv> connect_handshake E p c (scheme, host, port) u hs timeout ext"
  shows "fst creq = Inl e \<Longrightarrow> fst H = Some (Collaborator e)"
    and "fst creq = Inr (status, rh, st, ex) \<Longrightarrow>
         fst (read_stream E st (snd creq)) = Some e \<Longrightarrow> fst H = Some (Collaborator e)"
    and "fst creq = Inr (status, rh, st, ex) \<Longrightarrow>
         fst (read_stream E st (snd creq)) = None \<Longrightarrow> status < 200 \<or> status > 299 \<Longrightarrow>
         fst H = Some (ProxyError (Message (dec_int status @ '' '' @ get_reason_phrase E status)))"
    and "fst creq = Inr (status, rh, st, ex) \<Longrightarrow>
         fst (read_stream E st (snd creq)) = None \<Longrightarrow> \<not> (status < 200 \<or> status > 299) \<Longrightarrow>
         scheme = ''https'' \<Longrightarrow>
         fst (start_tls E c host timeout (snd (read_stream E st (snd creq)))) = Some e \<Longrightarrow>
         fst H = Some (Collaborator e)"
  unfolding H_def creq_def connect_handshake_def Let_def
  by (auto split: prod.splits sum.splits option.splits)

lemma fresh_new_connection:
  "new_connection p og sock = (fresh p, snd (new_connection p og sock))"
  by (simp add: new_connection_def)

text \<open>
  C7 (amended). In \<^verbatim>\<open>_tunnel_request\<close>, when the pool has no connection for the
  target origin: an exception of the CONNECT request, of the draining of its response or of
  the TLS upgrade is wrapped in a \<open>ProxyError\<close> that is raised after the auxiliary
  connection was closed (the close is the last call made, and the auxiliary connection was
  never pooled); when the response was drained without an exception, a status outside
  200..299 raises, through the same \<^verbatim>\<open>except\<close> clause, a \<open>ProxyError\<close> that wraps
  the \<open>ProxyError\<close> of the message "status reason", and whose text is that message.
\<close>

theorem tunnel_handshake_failure:
  fixes E :: collaborators and p p1 :: "'a SyncHTTPProxy_scheme"
    and verb scheme host :: bytes and port :: int and url :: URL
    and headers :: "Headers option" and stream :: "stream option" and ext :: "ext option"
  assumes og: "url_to_origin E url = Inr (scheme, host, port)"
    and none: "get_connection_from_pool p (scheme, host, port) = (None, p1)"
  defines "ext1 \<equiv> (case ext of None \<Rightarrow> Map.empty | Some x \<Rightarrow> x)"
  defines "timeout \<equiv> (case ext1 ''timeout'' of None \<Rightarrow> Map.empty | Some t \<Rightarrow> t)"
  defines "aux \<equiv> fresh p1"
  defines "target \<equiv> host @ '':'' @ dec_int port"
  defines "creq \<equiv>
     connection_request E aux ''CONNECT'' (origin_with_target (proxy_origin p1) target)
       (Some (merge_headers (Some [(''Host'', target), (''Accept'', ''*/*'')])
                (Some (proxy_headers p1))))
       None ext1 (heap (snd (new_connection p1 (proxy_origin p1) None)))"
  defines "res \<equiv> tunnel_request E p verb url headers stream ext"
  defines "failed_with \<equiv> \<lambda>exc.
     \<exists>p'. res = Some (Inl (ProxyError (Cause exc)), p')
        \<and> state (heap p' aux) = CLOSED \<and> last (trace p') = ConnClose aux
        \<and> connections p' = connections p1"
  shows
    "(\<forall>e. fst creq = Inl e \<longrightarrow> failed_with (Collaborator e))
   \<and> (\<forall>status rh st ex. fst creq = Inr (status, rh, st, ex) \<longrightarrow>
        (\<forall>e. fst (read_stream E st (snd creq)) = Some e \<longrightarrow> failed_with (Collaborator e))
      \<and> (fst (read_stream E st (snd creq)) = None \<and> (status < 200 \<or> status > 299) \<longrightarrow>
            failed_with
              (ProxyError (Message (dec_int status @ '' '' @ get_reason_phrase E status)))
          \<and> str_exn (ProxyError (Cause
                (ProxyError (Message (dec_int status @ '' '' @ get_reason_phrase E status)))))
              = Some (dec_int status @ '' '' @ get_reason_phrase E status))
      \<and> (fst (read_stream E st (snd creq)) = None \<and> \<not> (status < 200 \<or> status > 299)
            \<and> scheme = ''https'' \<longrightarrow>
            (\<forall>e. fst (start_tls E aux host timeout (snd (read_stream E st (snd creq)))) = Some e
               \<longrightarrow> failed_with (Collaborator e))))"
proof -
  define q where "q = snd (new_connection p1 (proxy_origin p1) None)"
  define H where "H = connect_handshake E q aux (scheme, host, port)
      (origin_with_target (proxy_origin p1) target)
      (merge_headers (Some [(''Host'', target), (''Accept'', ''*/*'')]) (Some (proxy_headers p1)))
      timeout ext1"
  have q: "connections q = connections p1" by (simp add: q_def new_connection_def)
  have F: "failed_with exc" if "fst H = Some exc" for exc
  proof -
    from that have "H = (Some exc, snd H)" by (metis prod.collapse)
    then have "tunnel_connect E p1 (scheme, host, port) timeout ext1 =
           Some (Inl (ProxyError (Cause exc)), connection_close aux (snd H))"
      unfolding H_def q_def aux_def target_def by (rule tunnel_connect_raised)
    then have "res = Some (Inl (ProxyError (Cause exc)), connection_close aux (snd H))"
      by (simp add: res_def tunnel_request_def og none ext1_def timeout_def Let_def)
    moreover have "connections (connection_close aux (snd H)) = connections p1"
      by (simp add: connection_close_def H_def q)
    moreover have "state (heap (connection_close aux (snd H)) aux) = CLOSED"
      "last (trace (connection_close aux (snd H))) = ConnClose aux"
      by (simp_all add: connection_close_def)
    ultimately show ?thesis unfolding failed_with_def by blast
  qed
  have C1: "fst H = Some (Collaborator e)" if "fst creq = Inl e" for e
    using that unfolding H_def creq_def q_def by (rule connect_handshake_cases(1))
  have C2: "fst H = Some (Collaborator e)"
    if "fst creq = Inr (status, rh, st, ex)" "fst (read_stream E st (snd creq)) = Some e"
    for status rh st ex e
    using that unfolding H_def creq_def q_def by (rule connect_handshake_cases(2))
  have C3: "fst H = Some (ProxyError (Message (dec_int status @ '' '' @ get_reason_phrase E status)))"
    if "fst creq = Inr (status, rh, st, ex)" "fst (read_stream E st (snd creq)) = None"
      "status < 200 \<or> status > 299"
    for status rh st ex
    using that unfolding H_def creq_def q_def by (rule connect_handshake_cases(3))
  have C4: "fst H = Some (Collaborator e)"
    if "fst creq = Inr (status, rh, st, ex)" "fst (read_stream E st (snd creq)) = None"
      "\<not> (status < 200 \<or> status > 299)" "scheme = ''https''"
      "fst (start_tls E aux host timeout (snd (read_stream E st (snd creq)))) = Some e"
    for status rh st ex e
    using that unfolding H_def creq_def q_def by (rule connect_handshake_cases(4))
  show ?thesis
  proof (intro conjI allI impI)
    fix e assume "fst creq = Inl e"
    then show "failed_with (Collaborator e)" by (intro F C1)
  next
    fix status rh st ex e
    assume "fst creq = Inr (status, rh, st, ex)" "fst (read_stream E st (snd creq)) = Some e"
    then show "failed_with (Collaborator e)" by (intro F C2)
  next
    fix status rh st ex
    assume "fst creq = Inr (status, rh, st, ex)"
      "fst (read_stream E st (snd creq)) = None \<and> (status < 200 \<or> status > 299)"
    then have "fst creq = Inr (status, rh, st, ex)" "fst (read_stream E st (snd creq)) = None"
      "status < 200 \<or> status > 299" by simp_all
    then have "fst H = Some (ProxyError
        (Message (dec_int status @ '' '' @ get_reason_phrase E status)))" by (rule C3)
    then show "failed_with
        (ProxyError (Message (dec_int status @ '' '' @ get_reason_phrase E status)))"
      by (rule F)
  next
    fix status :: int
    show "str_exn (ProxyError (Cause
                (ProxyError (Message (dec_int status @ '' '' @ get_reason_phrase E status)))))
              = Some (dec_int status @ '' '' @ get_reason_phrase E status)"
      by simp
  next
    fix status rh st ex e
    assume "fst creq = Inr (status, rh, st, ex)"
      "fst (read_stream E st (snd creq)) = None \<and> \<not> (status < 200 \<or> status > 299)
            \<and> scheme = ''https''"
      "fst (start_tls E aux host timeout (snd (read_stream E st (snd creq)))) = Some e"
    then have "fst creq = Inr (status, rh, st, ex)" "fst (read_stream E st (snd creq)) = None"
      "\<not> (status < 200 \<or> status > 299)" "scheme = ''https''"
      "fst (start_tls E aux host timeout (snd (read_stream E st (snd creq)))) = Some e"
      by simp_all
    then have "fst H = Some (Collaborator e)" by (rule C4)
    then show "failed_with (Collaborator e)" by (rule F)
  qed
qed

lemma example_target:
  "url_to_origin example_collaborators (''https'', ''t.test'', None, ''/'')
     = Inr (''https'', ''t.test'', 443)"
  "url_to_origin broken_tls (''https'', ''t.test'', None, ''/'')
     = Inr (''https'', ''t.test'', 443)"
  by (simp_all add: example_collaborators_def broken_tls_def)

lemma example_proxy_empty:
  "get_connection_from_pool example_proxy og = (None, example_proxy)"
  by (simp add: get_connection_from_pool_def connections_for_origin_def bucket_def
      example_proxy_def)

theorem tunnel_handshake_failure_witness:
  "(\<exists>p'. tunnel_request example_collaborators example_proxy ''GET''
            (''https'', ''t.test'', None, ''/'') None None None
          = Some (Inl (ProxyError (Cause (ProxyError (Message ''403 Forbidden'')))), p')
        \<and> state (heap p' 0) = CLOSED \<and> last (trace p') = ConnClose 0
        \<and> connections p' = [])
   \<and> (\<exists>p'. tunnel_request broken_tls example_proxy ''GET''
            (''https'', ''t.test'', None, ''/'') None None None
          = Some (Inl (ProxyError (Cause (Collaborator (OtherException 7)))), p')
        \<and> state (heap p' 0) = CLOSED \<and> last (trace p') = ConnClose 0
        \<and> connections p' = [])"
proof -
  have f: "fresh example_proxy = 0" "connections example_proxy = []"
    by (simp_all add: example_proxy_def)
  have d: "dec_int 403 = ''403''" by code_simp
  have g: "get_reason_phrase example_collaborators 403 = ''Forbidden''"
    by (simp add: get_reason_phrase_def example_collaborators_def)
  note t = tunnel_handshake_failure [OF example_target(1) example_proxy_empty,
      where verb = "''GET''" and headers = None and stream = None and ext = None]
  have a: "\<exists>p'. tunnel_request example_collaborators example_proxy ''GET''
            (''https'', ''t.test'', None, ''/'') None None None
          = Some (Inl (ProxyError (Cause (ProxyError (Message ''403 Forbidden'')))), p')
        \<and> state (heap p' 0) = CLOSED \<and> last (trace p') = ConnClose 0
        \<and> connections p' = []"
    using t [THEN conjunct2, THEN spec [of _ "403::int"], THEN spec [of _ "[]::Headers"],
        THEN spec [of _ "0::stream"], THEN spec [of _ "Map.empty::ext"], THEN mp,
        THEN conjunct2, THEN conjunct1, THEN mp, THEN conjunct1]
    by (simp add: f d get_reason_phrase_def example_collaborators_def)
  note u = tunnel_handshake_failure [OF example_target(2) example_proxy_empty,
      where verb = "''GET''" and headers = None and stream = None and ext = None]
  have b: "\<exists>p'. tunnel_request broken_tls example_proxy ''GET''
            (''https'', ''t.test'', None, ''/'') None None None
          = Some (Inl (ProxyError (Cause (Collaborator (OtherException 7)))), p')
        \<and> state (heap p' 0) = CLOSED \<and> last (trace p') = ConnClose 0
        \<and> connections p' = []"
    using u [THEN conjunct2, THEN spec [of _ "200::int"], THEN spec [of _ "[]::Headers"],
        THEN spec [of _ "0::stream"], THEN spec [of _ "Map.empty::ext"], THEN mp,
        THEN conjunct2, THEN conjunct2, THEN mp, THEN spec [of _ "OtherException 7"],
        THEN mp]
    by (simp add: f broken_tls_def example_collaborators_def)
  from a b show ?thesis by (rule conjI)
qed

text \<open>
  The claim as written fails where the status is outside 200..299 and the draining of the
  response raises: the response is drained before the status is looked at, so the
  \<open>ProxyError\<close> raised wraps the exception of the draining and carries no message
  "status reason".
\<close>

theorem tunnel_status_message_counterexample:
  "get_connection_from_pool example_proxy (''https'', ''t.test'', 443) = (None, example_proxy)
   \<and> fst (connection_request failing_drain 0 ''CONNECT''
             (''http'', ''p'', Some 8080, ''t.test:443'')
             (Some [(''Host'', ''t.test:443''), (''Accept'', ''*/*'')]) None Map.empty
             (heap (snd (new_connection example_proxy (''http'', ''p'', 8080) None))))
       = Inr (403, [], 0, Map.empty)
   \<and> (299 :: int) < 403
   \<and> get_reason_phrase failing_drain 403 = ''Forbidden''
   \<and> map_option fst
         (tunnel_request failing_drain example_proxy ''GET''
            (''https'', ''t.test'', None, ''/'') None None None)
       = Some (Inl (ProxyError (Cause (Collaborator (OtherException 5)))))
   \<and> str_exn (ProxyError (Cause (Collaborator (OtherException 5)))) \<noteq> Some ''403 Forbidden''"
proof -
  have og: "url_to_origin failing_drain (''https'', ''t.test'', None, ''/'')
              = Inr (''https'', ''t.test'', 443)"
    by (simp add: failing_drain_def example_collaborators_def)
  have c: "fst (connection_request failing_drain 0 ''CONNECT''
             (''http'', ''p'', Some 8080, ''t.test:443'')
             (Some [(''Host'', ''t.test:443''), (''Accept'', ''*/*'')]) None Map.empty
             (heap (snd (new_connection example_proxy (''http'', ''p'', 8080) None))))
       = Inr (403, [], 0, Map.empty)"
    by (simp add: failing_drain_def example_collaborators_def)
  have g: "get_reason_phrase failing_drain 403 = ''Forbidden''"
    by (simp add: get_reason_phrase_def failing_drain_def example_collaborators_def)
  have f: "fresh example_proxy = 0" "proxy_origin example_proxy = (''http'', ''p'', 8080)"
    "proxy_headers example_proxy = []"
    by (simp_all add: example_proxy_def)
  have d: "dec_int 443 = ''443''" by code_simp
  have m: "merge_headers (Some [(''Host'', ''t.test:443''), (''Accept'', ''*/*'')]) (Some [])
             = [(''Host'', ''t.test:443''), (''Accept'', ''*/*'')]"
    by (simp add: merge_headers_def)
  have h: "fst (connect_handshake failing_drain
                  (snd (new_connection example_proxy (''http'', ''p'', 8080) None)) 0
                  (''https'', ''t.test'', 443) (''http'', ''p'', Some 8080, ''t.test:443'')
                  [(''Host'', ''t.test:443''), (''Accept'', ''*/*'')] Map.empty Map.empty)
             = Some (Collaborator (OtherException 5))"
    by (rule connect_handshake_cases(2) [OF c])
       (simp add: failing_drain_def example_collaborators_def)
  then have "connect_handshake failing_drain
                  (snd (new_connection example_proxy (''http'', ''p'', 8080) None)) 0
                  (''https'', ''t.test'', 443) (''http'', ''p'', Some 8080, ''t.test:443'')
                  [(''Host'', ''t.test:443''), (''Accept'', ''*/*'')] Map.empty Map.empty
             = (Some (Collaborator (OtherException 5)),
                snd (connect_handshake failing_drain
                  (snd (new_connection example_proxy (''http'', ''p'', 8080) None)) 0
                  (''https'', ''t.test'', 443) (''http'', ''p'', Some 8080, ''t.test:443'')
                  [(''Host'', ''t.test:443''), (''Accept'', ''*/*'')] Map.empty Map.empty))"
    by (metis prod.collapse)
  then have "map_option fst
      (tunnel_connect failing_drain example_proxy (''https'', ''t.test'', 443) Map.empty Map.empty)
      = Some (Inl (ProxyError (Cause (Collaborator (OtherException 5)))))"
    using tunnel_connect_raised [of failing_drain example_proxy "''https''" "''t.test''" 443
        Map.empty Map.empty "Collaborator (OtherException 5)"]
    by (simp add: f d m origin_with_target_def)
  then have t: "map_option fst
         (tunnel_request failing_drain example_proxy ''GET''
            (''https'', ''t.test'', None, ''/'') None None None)
       = Some (Inl (ProxyError (Cause (Collaborator (OtherException 5)))))"
    by (auto simp add: tunnel_request_def og example_proxy_empty Let_def
        split: option.splits prod.splits sum.splits)
  from example_proxy_empty [of "(''https'', ''t.test'', 443)"] c g t show ?thesis by simp
qed

section \<open>Proxy: dispatch\<close>

lemma proxy_mode_remove_from_pool [simp]:
  "proxy_mode (remove_from_pool p c) = proxy_mode p"
  by (simp add: remove_from_pool_def semaphore_release_def connection_semaphore_def Let_def
      split: option.splits)

lemma proxy_mode_remove_each [simp]: "proxy_mode (remove_each xs p) = proxy_mode p"
  by (induction xs arbitrary: p) simp_all

lemma proxy_mode_connection_close [simp]:
  "proxy_mode (connection_close c p) = proxy_mode p"
  by (simp add: connection_close_def)

lemma proxy_mode_close_each [simp]:
  "proxy_mode (fold connection_close xs p) = proxy_mode p"
  by (induction xs arbitrary: p) simp_all

lemma proxy_mode_keepalive_sweep [simp]:
  "proxy_mode (keepalive_sweep p now) = proxy_mode p"
proof (cases "keepalive_expiry p")
  case None
  then show ?thesis by (simp add: keepalive_sweep_def)
next
  case (Some e)
  show ?thesis
  proof (cases "now < next_keepalive_check p")
    case True
    with Some show ?thesis by (simp add: keepalive_sweep_def)
  next
    case False
    from keepalive_sweep_run [OF Some False] show ?thesis by simp
  qed
qed

lemma keepalive_sweep_unset: "keepalive_expiry p = None \<Longrightarrow> keepalive_sweep p now = p"
  by (simp add: keepalive_sweep_def)

lemma forward_request_error:
  assumes "forward_request E p method url headers stream ext = Some (Inl e, p')"
  shows "\<not> validation_error e"
proof -
  from assms have "e = PoolTimeout \<or> (\<exists>x. e = Collaborator x)"
    by (auto simp add: forward_request_def Let_def
        split: prod.splits option.splits sum.splits
        dest: add_to_pool_error send_request_error)
  then show ?thesis by (auto simp add: validation_error_def)
qed

lemma tunnel_connect_error:
  assumes "tunnel_connect E p og timeout ext = Some (Inl e, p')"
  shows "e = PoolTimeout \<or> (\<exists>x. e = ProxyError x)"
  using assms
  by (auto simp add: tunnel_connect_def Let_def
      split: prod.splits option.splits sum.splits
      dest: add_to_pool_error)

lemma tunnel_request_error:
  assumes "tunnel_request E p method url headers stream ext = Some (Inl e, p')"
  shows "\<not> validation_error e"
proof -
  from assms have "e = PoolTimeout \<or> (\<exists>x. e = Collaborator x) \<or> (\<exists>x. e = ProxyError x)"
    by (auto simp add: tunnel_request_def Let_def
        split: prod.splits option.splits sum.splits
        dest: tunnel_connect_error send_request_error)
  then show ?thesis by (auto simp add: validation_error_def)
qed

text \<open>
  C10. \<^verbatim>\<open>SyncHTTPProxy.request\<close> validates nothing: after the sweep it is the forward
  path when the mode is DEFAULT and the scheme is http, or the mode is FORWARD_ONLY, and
  the tunnel path otherwise, whatever the URL; and it never raises \<open>UnsupportedProtocol\<close>
  or \<open>LocalProtocolError\<close> (exceptions raised inside collaborators are the separate
  \<open>Collaborator\<close> values).
\<close>

theorem proxy_request_no_validation:
  fixes p :: "'a SyncHTTPProxy_scheme"
  shows
    "proxy_request E p now method url headers stream ext =
       (if (proxy_mode p = DEFAULT \<and> fst url = ''http'') \<or> proxy_mode p = FORWARD_ONLY
        then forward_request E (keepalive_sweep p now) method url headers stream ext
        else tunnel_request E (keepalive_sweep p now) method url headers stream ext)
     \<and> (\<forall>e p'. proxy_request E p now method url headers stream ext = Some (Inl e, p') \<longrightarrow>
           \<not> validation_error e)"
proof -
  have d: "proxy_request E p now method url headers stream ext =
       (if (proxy_mode p = DEFAULT \<and> fst url = ''http'') \<or> proxy_mode p = FORWARD_ONLY
        then forward_request E (keepalive_sweep p now) method url headers stream ext
        else tunnel_request E (keepalive_sweep p now) method url headers stream ext)"
    by (cases "keepalive_expiry p") (simp_all add: proxy_request_def keepalive_sweep_unset Let_def)
  have "\<not> validation_error e"
    if "proxy_request E p now method url headers stream ext = Some (Inl e, p')" for e p'
    using that unfolding d
    by (auto split: if_splits dest: forward_request_error tunnel_request_error)
  with d show ?thesis by blast
qed

theorem proxy_request_no_validation_witness:
  "proxy_request example_collaborators example_proxy 0 ''GET'' (''ftp'', [], None, ''/'')
       None None None
     = Some (Inl (Collaborator (OtherException 0)), example_proxy)
   \<and> \<not> validation_error (Collaborator (OtherException 0))
   \<and> (\<exists>p'. proxy_request example_collaborators forwarding_proxy 0 ''GET''
              (''ftp'', [], None, ''/'') None None None
            = Some (Inr (200, [], ResponseByteStream 0 0, Map.empty), p'))"
proof -
  have k: "keepalive_sweep example_proxy 0 = example_proxy"
    "keepalive_sweep forwarding_proxy 0 = forwarding_proxy"
    by (simp_all add: keepalive_sweep_def example_proxy_def forwarding_proxy_def)
  have m: "proxy_mode example_proxy = DEFAULT" "proxy_mode forwarding_proxy = FORWARD_ONLY"
    by (simp_all add: example_proxy_def forwarding_proxy_def)
  have t: "tunnel_request example_collaborators example_proxy ''GET'' (''ftp'', [], None, ''/'')
       None None None
     = Some (Inl (Collaborator (OtherException 0)), example_proxy)"
    by (simp add: tunnel_request_def example_collaborators_def)
  have g: "get_connection_from_pool forwarding_proxy og = (None, forwarding_proxy)" for og
    by (simp add: get_connection_from_pool_def connections_for_origin_def bucket_def
        example_proxy_def forwarding_proxy_def)
  have f: "\<exists>p'. forward_request example_collaborators forwarding_proxy ''GET''
              (''ftp'', [], None, ''/'') None None None
            = Some (Inr (200, [], ResponseByteStream 0 0, Map.empty), p')"
    unfolding forward_request_def g
    by (simp add: Let_def new_connection_def add_to_pool_def
        connection_semaphore_def send_request_def forwarding_proxy_def example_proxy_def
        example_collaborators_def)
  from proxy_request_no_validation [of example_collaborators example_proxy 0 "''GET''"
      "(''ftp'', [], None, ''/'')" None None None]
    proxy_request_no_validation [of example_collaborators forwarding_proxy 0 "''GET''"
      "(''ftp'', [], None, ''/'')" None None None]
    t f
  show ?thesis by (simp add: k m validation_error_def)
qed

end
